theory Spec2Isabelle
  imports Main
begin

section \<open>JavaScript numbers\<close>

text \<open>
  Prices, fees and probabilities are JavaScript Numbers: IEEE 754 binary64 values.
  A finite double is written \<open>Fin m e\<close> and stands for \<open>m * 2 ^ e\<close>; every operation
  returns it with \<open>m\<close> odd (zero is \<open>Fin 0 0\<close>), so that equal doubles are equal terms.
  Arithmetic computes the exact result as a ratio of integers and rounds it once, to
  nearest with ties to even, on 53 significant bits, with gradual underflow below
  \<open>2 ^ - 1022\<close> and overflow to infinity from \<open>2 ^ 1024\<close>. The sign of zero is not kept:
  a zero divisor counts as \<open>+0\<close>.
\<close>

datatype jsnum = NaN | NegInf | Fin int int | PosInf

fun bitlen :: "nat \<Rightarrow> nat" where
  "bitlen n = (if n = 0 then 0 else Suc (bitlen (n div 2)))"

declare bitlen.simps [simp del]

definition shl :: "int \<Rightarrow> int \<Rightarrow> int" where
  "shl n k = n * 2 ^ nat k"

function norm2 :: "int \<Rightarrow> int \<Rightarrow> jsnum" where
  "norm2 m e = (if m = 0 then Fin 0 0
                else if even m then norm2 (m div 2) (e + 1) else Fin m e)"
  by pat_completeness auto
termination
  by (relation "measure (\<lambda>(m, e). nat \<bar>m\<bar>)") auto

declare norm2.simps [simp del]

definition ilog2_guess :: "int \<Rightarrow> int \<Rightarrow> int \<Rightarrow> int" where
  "ilog2_guess p q k = (if shl q k \<le> shl p (- k) then k else k - 1)"

definition ilog2_ratio :: "int \<Rightarrow> int \<Rightarrow> int" where
  \<comment> \<open>the integer part of the binary logarithm of \<open>p / q\<close>, for positive \<open>p\<close> and \<open>q\<close>\<close>
  "ilog2_ratio p q = ilog2_guess p q (int (bitlen (nat p)) - int (bitlen (nat q)))"

definition round_half_even :: "int \<Rightarrow> int \<Rightarrow> int" where
  \<comment> \<open>\<open>n / d\<close> rounded to the nearest integer, a tie to the even one\<close>
  "round_half_even n d =
     (if 2 * (n mod d) < d then n div d
      else if d < 2 * (n mod d) then n div d + 1
      else if even (n div d) then n div d else n div d + 1)"

definition pack :: "bool \<Rightarrow> int \<Rightarrow> int \<Rightarrow> jsnum" where
  "pack neg m e =
     (if 1024 < int (bitlen (nat m)) + e then (if neg then NegInf else PosInf)
      else norm2 (if neg then - m else m) e)"

definition round_exp :: "bool \<Rightarrow> int \<Rightarrow> int \<Rightarrow> int \<Rightarrow> jsnum" where
  "round_exp neg p q e = pack neg (round_half_even (shl p (- e)) (shl q e)) e"

definition round_ratio :: "bool \<Rightarrow> int \<Rightarrow> int \<Rightarrow> jsnum" where
  \<comment> \<open>the double nearest to \<open>p / q\<close> (negated when \<open>neg\<close>), for \<open>0 \<le> p\<close> and \<open>0 < q\<close>\<close>
  "round_ratio neg p q =
     (if p = 0 then Fin 0 0
      else round_exp neg p q (max (ilog2_ratio p q - 52) (- 1074)))"

definition round_scaled :: "int \<Rightarrow> int \<Rightarrow> jsnum" where
  \<comment> \<open>the double nearest to \<open>n * 2 ^ x\<close>\<close>
  "round_scaled n x = round_ratio (n < 0) (shl \<bar>n\<bar> x) (shl 1 (- x))"

definition js_int :: "int \<Rightarrow> jsnum" where
  "js_int n = round_scaled n 0"

fun js_mul :: "jsnum \<Rightarrow> jsnum \<Rightarrow> jsnum" where
  "js_mul (Fin a ea) (Fin b eb) = round_scaled (a * b) (ea + eb)"
| "js_mul NaN _ = NaN"
| "js_mul _ NaN = NaN"
| "js_mul (Fin a ea) PosInf = (if a = 0 then NaN else if 0 < a then PosInf else NegInf)"
| "js_mul (Fin a ea) NegInf = (if a = 0 then NaN else if 0 < a then NegInf else PosInf)"
| "js_mul PosInf (Fin b eb) = (if b = 0 then NaN else if 0 < b then PosInf else NegInf)"
| "js_mul NegInf (Fin b eb) = (if b = 0 then NaN else if 0 < b then NegInf else PosInf)"
| "js_mul PosInf PosInf = PosInf"
| "js_mul NegInf NegInf = PosInf"
| "js_mul PosInf NegInf = NegInf"
| "js_mul NegInf PosInf = NegInf"

fun js_add :: "jsnum \<Rightarrow> jsnum \<Rightarrow> jsnum" where
  "js_add (Fin a ea) (Fin b eb) =
     round_scaled (shl a (ea - min ea eb) + shl b (eb - min ea eb)) (min ea eb)"
| "js_add NaN _ = NaN"
| "js_add _ NaN = NaN"
| "js_add PosInf NegInf = NaN"
| "js_add NegInf PosInf = NaN"
| "js_add PosInf _ = PosInf"
| "js_add NegInf _ = NegInf"
| "js_add _ PosInf = PosInf"
| "js_add _ NegInf = NegInf"

fun js_neg :: "jsnum \<Rightarrow> jsnum" where
  "js_neg NaN = NaN"
| "js_neg NegInf = PosInf"
| "js_neg PosInf = NegInf"
| "js_neg (Fin a ea) = Fin (- a) ea"

definition js_sub :: "jsnum \<Rightarrow> jsnum \<Rightarrow> jsnum" where
  "js_sub x y = js_add x (js_neg y)"

fun js_div :: "jsnum \<Rightarrow> jsnum \<Rightarrow> jsnum" where
  "js_div (Fin a ea) (Fin b eb) =
     (if b = 0 then (if a = 0 then NaN else if 0 < a then PosInf else NegInf)
      else round_ratio ((a < 0) \<noteq> (b < 0)) (shl \<bar>a\<bar> (ea - eb)) (shl \<bar>b\<bar> (eb - ea)))"
| "js_div NaN _ = NaN"
| "js_div _ NaN = NaN"
| "js_div (Fin a ea) _ = Fin 0 0"
| "js_div PosInf (Fin b eb) = (if b < 0 then NegInf else PosInf)"
| "js_div NegInf (Fin b eb) = (if b < 0 then PosInf else NegInf)"
| "js_div _ _ = NaN"

definition js_lit :: "int \<Rightarrow> int \<Rightarrow> jsnum" where
  \<comment> \<open>the decimal literal \<open>p / q\<close>: the double nearest to it\<close>
  "js_lit p q = js_div (js_int p) (js_int q)"

fun js_less :: "jsnum \<Rightarrow> jsnum \<Rightarrow> bool" where
  "js_less NaN _ = False"
| "js_less _ NaN = False"
| "js_less (Fin a ea) (Fin b eb) = (shl a (ea - min ea eb) < shl b (eb - min ea eb))"
| "js_less NegInf NegInf = False"
| "js_less NegInf _ = True"
| "js_less _ NegInf = False"
| "js_less PosInf _ = False"
| "js_less _ PosInf = True"

definition js_max :: "jsnum \<Rightarrow> jsnum \<Rightarrow> jsnum" where
  \<comment> \<open>\<open>Math.max\<close>: \<open>NaN\<close> as soon as one argument is\<close>
  "js_max x y = (if x = NaN \<or> y = NaN then NaN else if js_less x y then y else x)"

definition js_min :: "jsnum \<Rightarrow> jsnum \<Rightarrow> jsnum" where
  "js_min x y = (if x = NaN \<or> y = NaN then NaN else if js_less y x then y else x)"

definition js_truthy :: "jsnum \<Rightarrow> bool" where
  "js_truthy x = (x \<noteq> NaN \<and> x \<noteq> Fin 0 0)"

definition js_or :: "jsnum \<Rightarrow> jsnum \<Rightarrow> jsnum" where
  \<comment> \<open>\<open>x || y\<close> on numbers\<close>
  "js_or x y = (if js_truthy x then x else y)"

fun js_le :: "jsnum \<Rightarrow> jsnum \<Rightarrow> bool" where
  "js_le NaN _ = False"
| "js_le _ NaN = False"
| "js_le x y = (\<not> js_less y x)"

section \<open>Documents and the store\<close>

text \<open>
  The MongoDB collections are lists of documents in collection order. An ObjectId is a
  natural number; the store hands out fresh ones from \<open>next_id\<close>. A \<open>Date\<close> is its
  number of milliseconds. A field that the schema does not require is an option,
  \<open>None\<close> for an absent field. Field names carry a letter for their collection where
  two schemas use the same name.
\<close>

type_synonym oid = nat
type_synonym date = int

datatype jsval = JNull | JBool bool | JNum jsnum | JStr string | JDate date

fun truthy :: "jsval \<Rightarrow> bool" where
  "truthy JNull = False"
| "truthy (JBool b) = b"
| "truthy (JNum n) = js_truthy n"
| "truthy (JStr s) = (s \<noteq> [])"
| "truthy (JDate d) = True"

datatype 'a outcome = Returns 'a | Throws string

datatype 'a response = Success 'a | Failure nat string

datatype offer_status = OfferActive | OfferMatched | OfferExpired | OfferCancelled | OfferCompleted

datatype listing_status = Draft | Active | Matched | Sold | Expired | Cancelled

datatype delivery_method = Ticketmaster | Axs | Pdf | Willcall | OtherMethod

datatype delivery_status = DeliveryPending | Transferred | Confirmed | Disputed | DeliveryFailed

datatype escrow_status = Held | Released | Refunded

datatype payout_status = PayoutPending | Scheduled | Processing | PayoutCompleted | PayoutFailed

datatype payment_status = PaymentPending | Authorized | Captured | PaymentFailed | PaymentRefunded

datatype intent_status = IntentPending | IntentAuthorized | IntentCaptured | IntentCancelled

datatype event_status = Upcoming | Ongoing | EventCompleted | EventCancelled

record auto_sell =
  enabled :: bool
  triggerTime :: "date option"
  acceptHighestOffer :: bool

record delivery_details =
  transferEmail :: "string option"
  barcodes :: "string list"
  d_notes :: "string option"

record seller_listing =
  l_id :: oid
  l_seller :: oid
  l_event :: oid
  l_section :: string
  l_row :: "string option"
  l_seats :: "string list"
  l_quantity :: int
  askingPrice :: "jsnum option"
  minimumAcceptablePrice :: "jsnum option"
  isLive :: bool
  goLiveAt :: "jsval option"
  autoSell :: auto_sell
  l_status :: listing_status
  l_deliveryMethod :: delivery_method
  l_deliveryDetails :: "delivery_details option"
  l_createdAt :: date

record buyer_offer =
  o_id :: oid
  o_buyer :: oid
  o_event :: oid
  sections :: "string list"
  maxPrice :: jsnum
  o_quantity :: int
  o_suggestedPrice :: jsnum
  acceptanceProbability :: jsnum
  stripePaymentIntentId :: string
  paymentIntentStatus :: intent_status
  o_status :: offer_status
  matchedListing :: "oid option"
  matchedAt :: "date option"
  expiresAt :: date
  o_createdAt :: date

record transaction =
  t_id :: oid
  t_buyer :: oid
  t_seller :: oid
  buyerOffer :: oid
  sellerListing :: "oid option"
  t_event :: oid
  t_quantity :: int
  t_section :: string
  t_row :: "string option"
  t_seats :: "string list"
  salePrice :: jsnum
  buyerPaid :: jsnum
  sellerFee :: jsnum
  sellerPayout :: jsnum
  t_stripePaymentIntentId :: string
  stripeTransferId :: "string option"
  paymentStatus :: payment_status
  payoutStatus :: payout_status
  deliveryStatus :: delivery_status
  t_deliveryMethod :: delivery_method
  transferredAt :: "date option"
  confirmedAt :: "date option"
  escrowReleaseDate :: "date option"
  escrowStatus :: escrow_status
  hasDispute :: bool
  disputeReason :: "string option"
  t_notes :: "string option"
  t_createdAt :: date

record event =
  e_id :: oid
  dateTime :: date
  averagePrice :: "jsnum option"
  e_status :: event_status

record user =
  u_id :: oid
  stripeCustomerId :: "string option"
  stripeConnectAccountId :: "string option"

record store =
  offers :: "buyer_offer list"
  listings :: "seller_listing list"
  transactions :: "transaction list"
  events :: "event list"
  users :: "user list"
  next_id :: oid

text \<open>
  The payment gateway and the notification service are outside the program: each call
  either returns or throws, as the model is told by these functions.
\<close>

record collaborators =
  paymentIntents_create :: "jsnum \<Rightarrow> string outcome"
  paymentIntents_capture :: "string \<Rightarrow> unit outcome"
  paymentIntents_cancel :: "string \<Rightarrow> unit outcome"
  transfers_create :: "transaction \<Rightarrow> string \<Rightarrow> string outcome"
  notifyMatch :: "transaction \<Rightarrow> unit outcome"
  notifyDisputeParties :: "transaction \<Rightarrow> unit outcome"

text \<open>Saving a document that is in the collection replaces it; a new one is appended.\<close>

definition save_doc :: "('a \<Rightarrow> oid) \<Rightarrow> 'a \<Rightarrow> 'a list \<Rightarrow> 'a list" where
  "save_doc key d ds =
     (if key d \<in> key ` set ds then map (\<lambda>x. if key x = key d then d else x) ds
      else ds @ [d])"

definition save_listing :: "seller_listing \<Rightarrow> seller_listing list \<Rightarrow> seller_listing list" where
  "save_listing = save_doc l_id"

definition save_offer :: "buyer_offer \<Rightarrow> buyer_offer list \<Rightarrow> buyer_offer list" where
  "save_offer = save_doc o_id"

definition save_transaction :: "transaction \<Rightarrow> transaction list \<Rightarrow> transaction list" where
  "save_transaction = save_doc t_id"

text \<open>
  Schema validation on save, as far as the types leave something to check:
  \<open>section\<close> is required and \<open>quantity\<close> has \<open>min: 1\<close> (models/SellerListing.js).
\<close>

definition validate_listing :: "seller_listing \<Rightarrow> bool" where
  "validate_listing l = (l_section l \<noteq> [] \<and> 1 \<le> l_quantity l)"

definition validate_offer :: "buyer_offer \<Rightarrow> bool" where
  \<comment> \<open>models/BuyerOffer.js: \<open>maxPrice\<close> has \<open>min: 0\<close>, \<open>quantity\<close> has \<open>min: 1\<close>\<close>
  "validate_offer b = (js_le (js_int 0) (maxPrice b) \<and> 1 \<le> o_quantity b)"

section \<open>services/pricingEngine.js\<close>

record pricing =
  suggestedPrice :: jsnum
  probability :: jsnum
  avgOfferPrice :: jsnum
  avgSalePrice :: jsnum
  activeOffers :: nat

definition to_number :: "jsnum option \<Rightarrow> jsnum" where
  \<comment> \<open>an absent field reads \<open>undefined\<close>, which arithmetic turns into \<open>NaN\<close>\<close>
  "to_number v = (case v of None \<Rightarrow> NaN | Some n \<Rightarrow> n)"

definition calculateAcceptanceProbability :: "jsnum \<Rightarrow> event \<Rightarrow> jsnum" where
  "calculateAcceptanceProbability price ev =
     js_min (js_int 95)
       (js_max (js_int 10)
          (js_add (js_int 50)
             (js_mul (js_sub (js_div price (to_number (averagePrice ev))) (js_int 1))
                (js_int 100))))"

definition sum_prices :: "jsnum list \<Rightarrow> jsnum" where
  \<comment> \<open>\<open>reduce((sum, x) => sum + x, 0)\<close>\<close>
  "sum_prices xs = foldl js_add (js_int 0) xs"

definition average :: "jsnum list \<Rightarrow> jsnum" where
  \<comment> \<open>\<open>sum / length || 0\<close>\<close>
  "average xs = js_or (js_div (sum_prices xs) (js_int (int (length xs)))) (js_int 0)"

definition calculateSuggestedPrice ::
  "store \<Rightarrow> oid \<Rightarrow> string list \<Rightarrow> jsnum \<Rightarrow> int \<Rightarrow> pricing outcome" where
  "calculateSuggestedPrice s eventId sects maxP quantity =
     (let activeOffs = filter (\<lambda>b. o_event b = eventId \<and> o_status b = OfferActive
                                   \<and> (\<exists>x \<in> set (sections b). x \<in> set sects)) (offers s);
          completedTransactions = filter (\<lambda>t. t_event t = eventId \<and> t_section t \<in> set sects)
                                    (transactions s);
          avgOffer = average (map maxPrice activeOffs);
          avgSale = average (map salePrice completedTransactions);
          suggested = js_max (js_mul avgOffer (js_lit 11 10)) (js_mul avgSale (js_lit 95 100))
      in case find (\<lambda>e. e_id e = eventId) (events s) of
           None \<Rightarrow> Throws ''Cannot read properties of null''
         | Some ev \<Rightarrow>
             Returns \<lparr> suggestedPrice = js_min suggested maxP,
                       probability = calculateAcceptanceProbability suggested ev,
                       avgOfferPrice = avgOffer,
                       avgSalePrice = avgSale,
                       activeOffers = length activeOffs \<rparr>)"

section \<open>Queries with a sort\<close>

text \<open>
  \<open>find(...).sort(field)\<close> filters the collection and sorts the matches on one key.
  The sort is an insertion sort that keeps documents with equal keys in collection
  order. In the order of a numeric field an absent field comes first, then \<open>NaN\<close>,
  then the numbers.
\<close>

fun insort_by :: "('a \<Rightarrow> 'a \<Rightarrow> bool) \<Rightarrow> 'a \<Rightarrow> 'a list \<Rightarrow> 'a list" where
  "insort_by le x [] = [x]"
| "insort_by le x (y # ys) = (if le x y then x # y # ys else y # insort_by le x ys)"

definition sort_by :: "('a \<Rightarrow> 'a \<Rightarrow> bool) \<Rightarrow> 'a list \<Rightarrow> 'a list" where
  "sort_by le xs = foldr (insort_by le) xs []"

fun field_le :: "jsnum option \<Rightarrow> jsnum option \<Rightarrow> bool" where
  "field_le None _ = True"
| "field_le (Some x) None = False"
| "field_le (Some NaN) (Some y) = True"
| "field_le (Some x) (Some NaN) = False"
| "field_le (Some x) (Some y) = (\<not> js_less y x)"

definition ascending :: "('a \<Rightarrow> jsnum option) \<Rightarrow> 'a \<Rightarrow> 'a \<Rightarrow> bool" where
  "ascending f x y = field_le (f x) (f y)"

section \<open>services/matchingService.js: selection\<close>

definition matchingListings :: "buyer_offer \<Rightarrow> seller_listing list \<Rightarrow> seller_listing list" where
  "matchingListings offer ls =
     sort_by (ascending minimumAcceptablePrice)
       (filter (\<lambda>l. l_event l = o_event offer
                    \<and> l_section l \<in> set (sections offer)
                    \<and> l_status l = Active
                    \<and> isLive l
                    \<and> l_quantity l \<le> o_quantity offer
                    \<and> (case minimumAcceptablePrice l of
                          None \<Rightarrow> False
                        | Some m \<Rightarrow> js_le m (maxPrice offer))) ls)"

definition bestListing :: "buyer_offer \<Rightarrow> seller_listing list \<Rightarrow> seller_listing option" where
  \<comment> \<open>\<open>matchingListings[0]\<close> when \<open>matchingListings.length > 0\<close>\<close>
  "bestListing offer ls =
     (case matchingListings offer ls of [] \<Rightarrow> None | l # _ \<Rightarrow> Some l)"

definition listingsToProcess :: "date \<Rightarrow> seller_listing list \<Rightarrow> seller_listing list" where
  "listingsToProcess now ls =
     filter (\<lambda>l. enabled (autoSell l)
                  \<and> (case triggerTime (autoSell l) of None \<Rightarrow> False | Some t \<Rightarrow> t \<le> now)
                  \<and> l_status l = Active) ls"

section \<open>services/transactionService.js\<close>

text \<open>
  Modelled from the spec: \<open>createMatch\<close> of services/transactionService.js, which the
  matching service calls, is not among the sources. The definition follows section 4.3
  of the specification: inside one atomic unit the offer and the listing are read
  again and must both be \<open>active\<close>, the listing's section must be among the offer's
  sections and its quantity within the offer's; the sale price is the offer's
  \<open>maxPrice\<close>, the fee the default 10 percent of it, the payout the sale price minus
  the fee; the Transaction is created, offer and listing become \<open>matched\<close>, and the
  payment is captured. A failed capture aborts the unit.
\<close>

definition createMatch ::
  "collaborators \<Rightarrow> date \<Rightarrow> buyer_offer \<Rightarrow> seller_listing \<Rightarrow> store \<Rightarrow> unit outcome \<times> store" where
  "createMatch w now offer0 listing0 s =
     (case (find (\<lambda>b. o_id b = o_id offer0) (offers s),
            find (\<lambda>l. l_id l = l_id listing0) (listings s)) of
        (Some offer, Some listing) \<Rightarrow>
          if o_status offer \<noteq> OfferActive \<or> l_status listing \<noteq> Active
          then (Throws ''Conflict'', s)
          else if l_section listing \<notin> set (sections offer)
                  \<or> \<not> l_quantity listing \<le> o_quantity offer
          then (Throws ''Validation'', s)
          else
            (case paymentIntents_capture w (stripePaymentIntentId offer) of
               Throws msg \<Rightarrow> (Throws msg, s)
             | Returns _ \<Rightarrow>
                 (Returns (),
                  s\<lparr> offers := save_offer
                        (offer\<lparr> o_status := OfferMatched, matchedListing := Some (l_id listing),
                                matchedAt := Some now \<rparr>) (offers s),
                     listings := save_listing (listing\<lparr> l_status := Matched \<rparr>) (listings s),
                     transactions := save_transaction
                        \<lparr> t_id = next_id s, t_buyer = o_buyer offer, t_seller = l_seller listing,
                          buyerOffer = o_id offer, sellerListing = Some (l_id listing),
                          t_event = o_event offer, t_quantity = l_quantity listing,
                          t_section = l_section listing, t_row = l_row listing,
                          t_seats = l_seats listing,
                          salePrice = maxPrice offer, buyerPaid = maxPrice offer,
                          sellerFee = js_mul (maxPrice offer) (js_lit 10 100),
                          sellerPayout = js_sub (maxPrice offer)
                                           (js_mul (maxPrice offer) (js_lit 10 100)),
                          t_stripePaymentIntentId = stripePaymentIntentId offer,
                          stripeTransferId = None, paymentStatus = PaymentPending,
                          payoutStatus = PayoutPending, deliveryStatus = DeliveryPending,
                          t_deliveryMethod = l_deliveryMethod listing,
                          transferredAt = None, confirmedAt = None, escrowReleaseDate = None,
                          escrowStatus = Held, hasDispute = False, disputeReason = None,
                          t_notes = None, t_createdAt = now \<rparr> (transactions s),
                     next_id := next_id s + 1 \<rparr>))
      | _ \<Rightarrow> (Throws ''NotFound'', s))"

section \<open>services/matchingService.js: the two entry points\<close>

text \<open>
  The module imports \<open>SellerListing\<close> and \<open>createMatch\<close> and nothing else.
  \<open>findBestOfferForListing\<close> begins with \<open>BuyerOffer.find\<close>: the name \<open>BuyerOffer\<close> is not
  bound in the module, so evaluating it throws a ReferenceError before any offer is read.
  The function has no \<open>try\<close>, and neither has the loop of \<open>processAutoSellListings\<close>: the
  sweep is rejected at the first listing it processes.
\<close>

definition checkForInstantMatch ::
  "collaborators \<Rightarrow> date \<Rightarrow> buyer_offer \<Rightarrow> store \<Rightarrow> unit outcome \<times> store" where
  "checkForInstantMatch w now offer s =
     (case bestListing offer (listings s) of
        None \<Rightarrow> (Returns (), s)
      | Some l \<Rightarrow> createMatch w now offer l s)"

definition findBestOfferForListing ::
  "collaborators \<Rightarrow> date \<Rightarrow> seller_listing \<Rightarrow> store \<Rightarrow> unit outcome \<times> store" where
  "findBestOfferForListing w now listing s = (Throws ''BuyerOffer is not defined'', s)"

fun autoSellLoop ::
  "collaborators \<Rightarrow> date \<Rightarrow> seller_listing list \<Rightarrow> store \<Rightarrow> unit outcome \<times> store" where
  "autoSellLoop w now [] s = (Returns (), s)"
| "autoSellLoop w now (l # ls) s =
     (case findBestOfferForListing w now l s of
        (Throws msg, s') \<Rightarrow> (Throws msg, s')
      | (Returns _, s') \<Rightarrow> autoSellLoop w now ls s')"

definition processAutoSellListings ::
  "collaborators \<Rightarrow> date \<Rightarrow> store \<Rightarrow> unit outcome \<times> store" where
  "processAutoSellListings w now s = autoSellLoop w now (listingsToProcess now (listings s)) s"

section \<open>controllers/sellerListingController.js\<close>

text \<open>
  Every handler takes the id of the authenticated user (\<open>req.user.id\<close>), the route
  parameter, the request body and the store, and returns the HTTP response with the
  store it leaves.
\<close>

record listing_body =
  b_eventId :: "oid option"
  b_section :: "string option"
  b_row :: "string option"
  b_seats :: "string list option"
  b_quantity :: "int option"
  b_askingPrice :: "jsnum option"
  b_minimumAcceptablePrice :: "jsnum option"
  b_deliveryMethod :: "delivery_method option"
  b_deliveryDetails :: "delivery_details option"
  b_goLiveAt :: "jsval option"
  b_autoSell :: "auto_sell option"

record accept_body =
  a_section :: string
  a_row :: "string option"
  a_seats :: "string list"
  a_deliveryMethod :: delivery_method
  a_deliveryDetails :: "delivery_details option"

definition body_truthy :: "jsval option \<Rightarrow> bool" where
  \<comment> \<open>the test \<open>if (req.body.goLiveAt)\<close>: an absent field is \<open>undefined\<close>\<close>
  "body_truthy v = (case v of None \<Rightarrow> False | Some x \<Rightarrow> truthy x)"

definition autoSell_default :: auto_sell where
  "autoSell_default = \<lparr> enabled = False, triggerTime = None, acceptHighestOffer = True \<rparr>"

definition accepted_listing :: "date \<Rightarrow> oid \<Rightarrow> oid \<Rightarrow> accept_body \<Rightarrow> buyer_offer \<Rightarrow> seller_listing" where
  "accepted_listing now new_id uid body offer =
     \<lparr> l_id = new_id, l_seller = uid, l_event = o_event offer,
       l_section = a_section body, l_row = a_row body, l_seats = a_seats body,
       l_quantity = o_quantity offer,
       askingPrice = Some (maxPrice offer), minimumAcceptablePrice = None,
       isLive = False, goLiveAt = None, autoSell = autoSell_default,
       l_status = Matched,
       l_deliveryMethod = a_deliveryMethod body, l_deliveryDetails = a_deliveryDetails body,
       l_createdAt = now \<rparr>"

definition accepted_transaction ::
  "date \<Rightarrow> oid \<Rightarrow> oid \<Rightarrow> accept_body \<Rightarrow> buyer_offer \<Rightarrow> seller_listing \<Rightarrow> transaction" where
  "accepted_transaction now new_id uid body offer listing =
     \<lparr> t_id = new_id, t_buyer = o_buyer offer, t_seller = uid,
       buyerOffer = o_id offer, sellerListing = Some (l_id listing),
       t_event = o_event offer, t_quantity = o_quantity offer,
       t_section = a_section body, t_row = a_row body, t_seats = a_seats body,
       salePrice = maxPrice offer,
       buyerPaid = maxPrice offer,
       sellerFee = js_mul (maxPrice offer) (js_lit 1 10),
       sellerPayout = js_mul (maxPrice offer) (js_lit 9 10),
       t_stripePaymentIntentId = stripePaymentIntentId offer,
       stripeTransferId = None, paymentStatus = PaymentPending,
       payoutStatus = PayoutPending, deliveryStatus = DeliveryPending,
       t_deliveryMethod = a_deliveryMethod body,
       transferredAt = None, confirmedAt = None, escrowReleaseDate = None,
       escrowStatus = Held, hasDispute = False, disputeReason = None,
       t_notes = None, t_createdAt = now \<rparr>"

text \<open>
  \<open>acceptOffer\<close> works in a session: the three saves are staged and reach the store at
  \<open>commitTransaction\<close>; any error before it runs \<open>abortTransaction\<close>, which drops them.
  The offer is populated with its event and its buyer, and reading \<open>_id\<close> of either
  throws when the referenced document is gone. A notification that fails after the
  commit turns the response into an error and leaves the commit in place.
\<close>

definition acceptOffer ::
  "collaborators \<Rightarrow> date \<Rightarrow> oid \<Rightarrow> oid \<Rightarrow> accept_body \<Rightarrow> store \<Rightarrow> transaction response \<times> store" where
  "acceptOffer w now uid offerId body s =
     (case find (\<lambda>b. o_id b = offerId) (offers s) of
        None \<Rightarrow> (Failure 500 ''Offer not available'', s)
      | Some offer \<Rightarrow>
          if o_status offer \<noteq> OfferActive then (Failure 500 ''Offer not available'', s)
          else if a_section body \<notin> set (sections offer)
          then (Failure 500 ''Section not in buyer preferences'', s)
          else if find (\<lambda>e. e_id e = o_event offer) (events s) = None
          then (Failure 500 ''Cannot read properties of null'', s)
          else
            (let listing = accepted_listing now (next_id s) uid body offer;
                 offer' = offer\<lparr> o_status := OfferMatched, matchedListing := Some (l_id listing),
                                 matchedAt := Some now \<rparr>;
                 transaction = accepted_transaction now (next_id s + 1) uid body offer listing
             in if \<not> validate_listing listing
                then (Failure 500 ''SellerListing validation failed'', s)
                else if \<not> validate_offer offer'
                then (Failure 500 ''BuyerOffer validation failed'', s)
                else if find (\<lambda>u. u_id u = o_buyer offer) (users s) = None
                then (Failure 500 ''Cannot read properties of null'', s)
                else
                  (case paymentIntents_capture w (stripePaymentIntentId offer) of
                     Throws msg \<Rightarrow> (Failure 500 msg, s)
                   | Returns _ \<Rightarrow>
                       (let s' = s\<lparr> listings := save_listing listing (listings s),
                                     offers := save_offer offer' (offers s),
                                     transactions := save_transaction transaction (transactions s),
                                     next_id := next_id s + 2 \<rparr>
                        in case notifyMatch w transaction of
                             Throws msg \<Rightarrow>
                               (Failure 500 ''Cannot call abortTransaction after calling commitTransaction'', s')
                           | Returns _ \<Rightarrow> (Success transaction, s')))))"

definition apply_updates :: "listing_body \<Rightarrow> seller_listing \<Rightarrow> seller_listing" where
  \<comment> \<open>the loop over \<open>allowedUpdates\<close>: a field of the body that is not \<open>undefined\<close> is assigned\<close>
  "apply_updates body l =
     l\<lparr> l_section := (case b_section body of None \<Rightarrow> l_section l | Some v \<Rightarrow> v),
        l_row := (case b_row body of None \<Rightarrow> l_row l | Some v \<Rightarrow> Some v),
        l_seats := (case b_seats body of None \<Rightarrow> l_seats l | Some v \<Rightarrow> v),
        l_quantity := (case b_quantity body of None \<Rightarrow> l_quantity l | Some v \<Rightarrow> v),
        askingPrice := (case b_askingPrice body of None \<Rightarrow> askingPrice l | Some v \<Rightarrow> Some v),
        minimumAcceptablePrice :=
          (case b_minimumAcceptablePrice body of None \<Rightarrow> minimumAcceptablePrice l | Some v \<Rightarrow> Some v),
        l_deliveryMethod := (case b_deliveryMethod body of None \<Rightarrow> l_deliveryMethod l | Some v \<Rightarrow> v),
        l_deliveryDetails :=
          (case b_deliveryDetails body of None \<Rightarrow> l_deliveryDetails l | Some v \<Rightarrow> Some v),
        goLiveAt := (case b_goLiveAt body of None \<Rightarrow> goLiveAt l | Some v \<Rightarrow> Some v),
        autoSell := (case b_autoSell body of None \<Rightarrow> autoSell l | Some v \<Rightarrow> v) \<rparr>"

definition new_listing :: "date \<Rightarrow> oid \<Rightarrow> oid \<Rightarrow> listing_body \<Rightarrow> seller_listing option" where
  \<comment> \<open>\<open>new SellerListing({...})\<close> from a request body; \<open>None\<close> when a required field is absent\<close>
  "new_listing now new_id uid body =
     (case (b_eventId body, b_section body, b_quantity body, b_deliveryMethod body) of
        (Some eventId, Some sec, Some q, Some dm) \<Rightarrow>
          Some \<lparr> l_id = new_id, l_seller = uid, l_event = eventId,
                 l_section = sec, l_row = b_row body,
                 l_seats = (case b_seats body of None \<Rightarrow> [] | Some v \<Rightarrow> v),
                 l_quantity = q,
                 askingPrice = b_askingPrice body,
                 minimumAcceptablePrice = b_minimumAcceptablePrice body,
                 isLive = (\<not> body_truthy (b_goLiveAt body)),
                 goLiveAt = b_goLiveAt body,
                 autoSell = (case b_autoSell body of None \<Rightarrow> autoSell_default | Some v \<Rightarrow> v),
                 l_status = (if body_truthy (b_goLiveAt body) then Draft else Active),
                 l_deliveryMethod = dm, l_deliveryDetails = b_deliveryDetails body,
                 l_createdAt = now \<rparr>
      | _ \<Rightarrow> None)"

definition createListing ::
  "date \<Rightarrow> oid \<Rightarrow> listing_body \<Rightarrow> store \<Rightarrow> seller_listing response \<times> store" where
  "createListing now uid body s =
     (case (case b_eventId body of None \<Rightarrow> None
            | Some eventId \<Rightarrow> find (\<lambda>e. e_id e = eventId) (events s)) of
        None \<Rightarrow> (Failure 400 ''Invalid or past event'', s)
      | Some ev \<Rightarrow>
          if e_status ev \<noteq> Upcoming then (Failure 400 ''Invalid or past event'', s)
          else
            (case new_listing now (next_id s) uid body of
               None \<Rightarrow> (Failure 500 ''SellerListing validation failed'', s)
             | Some listing \<Rightarrow>
                 if \<not> validate_listing listing
                 then (Failure 500 ''SellerListing validation failed'', s)
                 else (Success listing,
                       s\<lparr> listings := save_listing listing (listings s),
                          next_id := next_id s + 1 \<rparr>)))"

text \<open>
  \<open>bulkUpload\<close> saves one new listing for each entry of the body, without looking the
  event up. The saves are independent: an entry that fails validation makes the
  response an error and does not undo the others.
\<close>

fun bulkSave :: "date \<Rightarrow> oid \<Rightarrow> listing_body list \<Rightarrow> store \<Rightarrow> bool \<times> store" where
  "bulkSave now uid [] s = (True, s)"
| "bulkSave now uid (body # bodies) s =
     (case new_listing now (next_id s) uid body of
        None \<Rightarrow> (False, snd (bulkSave now uid bodies s))
      | Some listing \<Rightarrow>
          if \<not> validate_listing listing then (False, snd (bulkSave now uid bodies s))
          else bulkSave now uid bodies
                 (s\<lparr> listings := save_listing listing (listings s),
                     next_id := next_id s + 1 \<rparr>))"

definition bulkUpload :: "date \<Rightarrow> oid \<Rightarrow> listing_body list \<Rightarrow> store \<Rightarrow> nat response \<times> store" where
  "bulkUpload now uid bodies s =
     (case bulkSave now uid bodies s of
        (True, s') \<Rightarrow> (Success (length bodies), s')
      | (False, s') \<Rightarrow> (Failure 500 ''Bulk upload failed'', s'))"

definition updateListing ::
  "oid \<Rightarrow> oid \<Rightarrow> listing_body \<Rightarrow> store \<Rightarrow> seller_listing response \<times> store" where
  "updateListing uid listingId body s =
     (case find (\<lambda>l. l_id l = listingId \<and> l_seller l = uid) (listings s) of
        None \<Rightarrow> (Failure 404 ''Listing not found'', s)
      | Some listing \<Rightarrow>
          if l_status listing \<in> {Matched, Sold}
          then (Failure 400 ''Cannot update listing in current status'', s)
          else
            (let updated = apply_updates body listing;
                 listing' = (if body_truthy (b_goLiveAt body)
                             then updated\<lparr> l_status := Draft, isLive := False \<rparr>
                             else updated)
             in if \<not> validate_listing listing'
                then (Failure 500 ''SellerListing validation failed'', s)
                else (Success listing', s\<lparr> listings := save_listing listing' (listings s) \<rparr>)))"

definition deleteListing :: "oid \<Rightarrow> oid \<Rightarrow> store \<Rightarrow> unit response \<times> store" where
  "deleteListing uid listingId s =
     (case find (\<lambda>l. l_id l = listingId \<and> l_seller l = uid) (listings s) of
        None \<Rightarrow> (Failure 404 ''Listing not found'', s)
      | Some listing \<Rightarrow>
          if l_status listing \<in> {Matched, Sold}
          then (Failure 400 ''Cannot delete listing in current status'', s)
          else
            (let listing' = listing\<lparr> l_status := Cancelled \<rparr>
             in if \<not> validate_listing listing'
                then (Failure 500 ''SellerListing validation failed'', s)
                else (Success (), s\<lparr> listings := save_listing listing' (listings s) \<rparr>)))"

text \<open>
  \<open>goLive\<close> ends with \<open>checkForInstantMatchForListing\<close>, which runs a query and, where
  the match would be made, holds only a comment: it leaves the store as it is.
\<close>

definition goLive :: "date \<Rightarrow> oid \<Rightarrow> oid \<Rightarrow> store \<Rightarrow> seller_listing response \<times> store" where
  "goLive now uid listingId s =
     (case find (\<lambda>l. l_id l = listingId \<and> l_seller l = uid \<and> l_status l = Draft) (listings s) of
        None \<Rightarrow> (Failure 404 ''Draft listing not found'', s)
      | Some listing \<Rightarrow>
          (case find (\<lambda>e. e_id e = l_event listing) (events s) of
             None \<Rightarrow> (Failure 500 ''Cannot read properties of null'', s)
           | Some ev \<Rightarrow>
               if e_status ev \<noteq> Upcoming then (Failure 400 ''Event has already passed'', s)
               else
                 (let listing' = listing\<lparr> l_status := Active, isLive := True,
                                          goLiveAt := Some (JDate now) \<rparr>
                  in if \<not> validate_listing listing'
                     then (Failure 500 ''SellerListing validation failed'', s)
                     else (Success listing',
                           s\<lparr> listings := save_listing listing' (listings s) \<rparr>))))"

definition transferTickets ::
  "date \<Rightarrow> oid \<Rightarrow> oid \<Rightarrow> string option \<Rightarrow> store \<Rightarrow> transaction response \<times> store" where
  "transferTickets now uid transactionId body_notes s =
     (case find (\<lambda>t. t_id t = transactionId \<and> t_seller t = uid
                      \<and> deliveryStatus t = DeliveryPending) (transactions s) of
        None \<Rightarrow> (Failure 404 ''Transaction not found or already transferred'', s)
      | Some t \<Rightarrow>
          (let t' = t\<lparr> deliveryStatus := Transferred, transferredAt := Some now,
                       t_notes := body_notes \<rparr>
           in (Success t', s\<lparr> transactions := save_transaction t' (transactions s) \<rparr>)))"

section \<open>controllers/buyerOfferController.js\<close>

text \<open>
  The module imports \<open>BuyerOffer\<close>, \<open>Event\<close>, \<open>stripe\<close>, \<open>calculateSuggestedPrice\<close> and
  \<open>checkForInstantMatch\<close>. It names \<open>Transaction\<close> and \<open>User\<close> without importing or
  declaring them, so evaluating either name throws a ReferenceError where it stands:
  in \<open>confirmDelivery\<close> and \<open>disputeTransaction\<close> at \<open>Transaction.findOne\<close>, inside the
  \<open>try\<close> of the handler, and in \<open>processSellerPayout\<close> at \<open>User.findById\<close>.
\<close>

record offer_body =
  ob_eventId :: oid
  ob_sections :: "string list"
  ob_maxPrice :: jsnum
  ob_quantity :: int

definition createOffer ::
  "collaborators \<Rightarrow> date \<Rightarrow> oid \<Rightarrow> offer_body \<Rightarrow> store \<Rightarrow> buyer_offer response \<times> store" where
  "createOffer w now buyerId body s =
     (case find (\<lambda>e. e_id e = ob_eventId body) (events s) of
        None \<Rightarrow> (Failure 400 ''Invalid or past event'', s)
      | Some ev \<Rightarrow>
          if e_status ev \<noteq> Upcoming then (Failure 400 ''Invalid or past event'', s)
          else
            (case calculateSuggestedPrice s (ob_eventId body) (ob_sections body)
                    (ob_maxPrice body) (ob_quantity body) of
               Throws msg \<Rightarrow> (Failure 500 ''Failed to create offer'', s)
             | Returns pricingSuggestion \<Rightarrow>
                 (case paymentIntents_create w
                         (js_mul (js_mul (ob_maxPrice body) (js_int (ob_quantity body))) (js_int 100)) of
                    Throws msg \<Rightarrow> (Failure 500 ''Failed to create offer'', s)
                  | Returns intentId \<Rightarrow>
                      (let offer =
                             \<lparr> o_id = next_id s, o_buyer = buyerId, o_event = ob_eventId body,
                               sections = ob_sections body, maxPrice = ob_maxPrice body,
                               o_quantity = ob_quantity body,
                               o_suggestedPrice = suggestedPrice pricingSuggestion,
                               acceptanceProbability = probability pricingSuggestion,
                               stripePaymentIntentId = intentId,
                               paymentIntentStatus = IntentAuthorized,
                               o_status = OfferActive, matchedListing = None, matchedAt = None,
                               expiresAt = dateTime ev - 3600000,
                               o_createdAt = now \<rparr>
                       in if \<not> validate_offer offer
                          then (Failure 500 ''Failed to create offer'', s)
                          else
                            (case checkForInstantMatch w now offer
                                    (s\<lparr> offers := save_offer offer (offers s),
                                        next_id := next_id s + 1 \<rparr>) of
                               (Throws msg, s') \<Rightarrow> (Failure 500 ''Failed to create offer'', s')
                             | (Returns _, s') \<Rightarrow> (Success offer, s'))))))"

definition cancelOffer ::
  "collaborators \<Rightarrow> oid \<Rightarrow> oid \<Rightarrow> store \<Rightarrow> unit response \<times> store" where
  "cancelOffer w uid offerId s =
     (case find (\<lambda>b. o_id b = offerId \<and> o_buyer b = uid \<and> o_status b = OfferActive) (offers s) of
        None \<Rightarrow> (Failure 404 ''Offer not found'', s)
      | Some offer \<Rightarrow>
          (case paymentIntents_cancel w (stripePaymentIntentId offer) of
             Throws msg \<Rightarrow> (Failure 500 ''Failed to cancel offer'', s)
           | Returns _ \<Rightarrow>
               (let offer' = offer\<lparr> o_status := OfferCancelled,
                                    paymentIntentStatus := IntentCancelled \<rparr>
                in if \<not> validate_offer offer'
                   then (Failure 500 ''Failed to cancel offer'', s)
                   else (Success (), s\<lparr> offers := save_offer offer' (offers s) \<rparr>))))"

definition processSellerPayout ::
  "collaborators \<Rightarrow> transaction \<Rightarrow> store \<Rightarrow> transaction outcome \<times> store" where
  \<comment> \<open>\<open>User.findById\<close> throws; the \<open>catch\<close> marks the payout failed, saves, and throws again\<close>
  "processSellerPayout w t s =
     (Throws ''User is not defined'',
      s\<lparr> transactions := save_transaction (t\<lparr> payoutStatus := PayoutFailed \<rparr>) (transactions s) \<rparr>)"

definition confirmDelivery ::
  "collaborators \<Rightarrow> date \<Rightarrow> oid \<Rightarrow> oid \<Rightarrow> store \<Rightarrow> transaction response \<times> store" where
  \<comment> \<open>\<open>Transaction.findOne\<close> throws; the \<open>catch\<close> of the handler answers 500\<close>
  "confirmDelivery w now uid transactionId s = (Failure 500 ''Failed to confirm delivery'', s)"

definition validReasons :: "string list" where
  "validReasons = [''tickets_not_received'', ''invalid_tickets'', ''wrong_section'',
                   ''wrong_quantity'', ''event_cancelled'', ''other'']"

definition disputeTransaction ::
  "collaborators \<Rightarrow> date \<Rightarrow> oid \<Rightarrow> oid \<Rightarrow> string \<Rightarrow> store \<Rightarrow> transaction response \<times> store" where
  \<comment> \<open>the reason is checked first; then \<open>Transaction.findOne\<close> throws and the \<open>catch\<close> answers 500\<close>
  "disputeTransaction w now uid transactionId reason s =
     (if reason \<notin> set validReasons then (Failure 400 ''Invalid dispute reason'', s)
      else (Failure 500 ''Failed to submit dispute'', s))"

section \<open>The system as a transition relation\<close>

text \<open>
  Of all handlers only \<open>acceptOffer\<close> runs its reads and writes in one database session.
  \<open>updateListing\<close>, \<open>deleteListing\<close>, \<open>goLive\<close>, \<open>cancelOffer\<close> and \<open>transferTickets\<close> read a
  document with \<open>findOne\<close>, check it, and call \<open>save()\<close> afterwards, and other requests
  can run in between. \<open>save()\<close> on a document that was read sends the paths whose value
  the handler has changed, and they are written to the document that has the same
  \<open>_id\<close>, whatever that document holds by then.
\<close>

definition changed :: "'a \<Rightarrow> 'a \<Rightarrow> 'a \<Rightarrow> 'a" where
  \<comment> \<open>a path after the save: the handler's value where the handler changed what it had read\<close>
  "changed as_read as_saved current = (if as_saved = as_read then current else as_saved)"

definition listing_saved :: "seller_listing \<Rightarrow> seller_listing \<Rightarrow> seller_listing \<Rightarrow> seller_listing" where
  "listing_saved r n d =
     d\<lparr> l_section := changed (l_section r) (l_section n) (l_section d),
        l_row := changed (l_row r) (l_row n) (l_row d),
        l_seats := changed (l_seats r) (l_seats n) (l_seats d),
        l_quantity := changed (l_quantity r) (l_quantity n) (l_quantity d),
        askingPrice := changed (askingPrice r) (askingPrice n) (askingPrice d),
        minimumAcceptablePrice :=
          changed (minimumAcceptablePrice r) (minimumAcceptablePrice n) (minimumAcceptablePrice d),
        isLive := changed (isLive r) (isLive n) (isLive d),
        goLiveAt := changed (goLiveAt r) (goLiveAt n) (goLiveAt d),
        autoSell := changed (autoSell r) (autoSell n) (autoSell d),
        l_status := changed (l_status r) (l_status n) (l_status d),
        l_deliveryMethod := changed (l_deliveryMethod r) (l_deliveryMethod n) (l_deliveryMethod d),
        l_deliveryDetails :=
          changed (l_deliveryDetails r) (l_deliveryDetails n) (l_deliveryDetails d) \<rparr>"

definition offer_saved :: "buyer_offer \<Rightarrow> buyer_offer \<Rightarrow> buyer_offer \<Rightarrow> buyer_offer" where
  "offer_saved r n d =
     d\<lparr> o_status := changed (o_status r) (o_status n) (o_status d),
        paymentIntentStatus :=
          changed (paymentIntentStatus r) (paymentIntentStatus n) (paymentIntentStatus d) \<rparr>"

definition transaction_saved :: "transaction \<Rightarrow> transaction \<Rightarrow> transaction \<Rightarrow> transaction" where
  "transaction_saved r n d =
     d\<lparr> deliveryStatus := changed (deliveryStatus r) (deliveryStatus n) (deliveryStatus d),
        transferredAt := changed (transferredAt r) (transferredAt n) (transferredAt d),
        t_notes := changed (t_notes r) (t_notes n) (t_notes d) \<rparr>"

text \<open>
  A request that has read its document and has not saved yet: the document as it was
  read, and as the handler is about to save it.
\<close>

datatype pending =
    ListingSave seller_listing seller_listing
  | OfferSave buyer_offer buyer_offer
  | TransactionSave transaction transaction

fun save_pending :: "pending \<Rightarrow> store \<Rightarrow> store" where
  "save_pending (ListingSave r n) s =
     s\<lparr> listings := map (\<lambda>d. if l_id d = l_id r then listing_saved r n d else d) (listings s) \<rparr>"
| "save_pending (OfferSave r n) s =
     s\<lparr> offers := map (\<lambda>d. if o_id d = o_id r then offer_saved r n d else d) (offers s) \<rparr>"
| "save_pending (TransactionSave r n) s =
     s\<lparr> transactions :=
          map (\<lambda>d. if t_id d = t_id r then transaction_saved r n d else d) (transactions s) \<rparr>"

text \<open>
  A state of the system is the store with the requests in flight. A step is: a handler
  that writes in one go (\<open>acceptOffer\<close> in its session, the handlers that insert new
  documents, the handlers that write nothing); the read and the checks of a handler
  that saves later, which puts its save in flight when the checks pass; a save in
  flight that reaches the store. \<open>createOffer\<close> saves its offer and then calls
  \<open>checkForInstantMatch\<close>, which queries the listings and calls \<open>createMatch\<close>; the calls
  may follow at once (\<open>step_createOffer\<close>) or with other requests in between, which
  \<open>step_offer_saved\<close> and \<open>step_createMatch\<close> allow for by admitting any new offer and
  any arguments of \<open>createMatch\<close>. Events and users are written by parts of the
  application that are not modelled, so a step may also replace them. The system starts
  without offers, listings and transactions and with no request in flight.
\<close>

inductive step :: "store \<times> pending list \<Rightarrow> store \<times> pending list \<Rightarrow> bool" where
  step_createOffer: "step (s, ps) (snd (createOffer w now uid body s), ps)"
| step_offer_saved:
    "o_id b = next_id s \<Longrightarrow>
     step (s, ps) (s\<lparr> offers := save_offer b (offers s), next_id := next_id s + 1 \<rparr>, ps)"
| step_createMatch: "step (s, ps) (snd (createMatch w now b l s), ps)"
| step_acceptOffer: "step (s, ps) (snd (acceptOffer w now uid offerId abody s), ps)"
| step_bulkUpload: "step (s, ps) (snd (bulkUpload now uid lbodies s), ps)"
| step_createListing: "step (s, ps) (snd (createListing now uid lbody s), ps)"
| step_confirmDelivery: "step (s, ps) (snd (confirmDelivery w now uid transactionId s), ps)"
| step_disputeTransaction:
    "step (s, ps) (snd (disputeTransaction w now uid transactionId reason s), ps)"
| step_processAutoSellListings: "step (s, ps) (snd (processAutoSellListings w now s), ps)"
| step_environment: "step (s, ps) (s\<lparr> events := es, users := us \<rparr>, ps)"
| step_updateListing:
    "find (\<lambda>l. l_id l = listingId \<and> l_seller l = uid) (listings s) = Some listing \<Longrightarrow>
     updateListing uid listingId lbody s = (Success listing', s') \<Longrightarrow>
     step (s, ps) (s, ListingSave listing listing' # ps)"
| step_deleteListing:
    "find (\<lambda>l. l_id l = listingId \<and> l_seller l = uid) (listings s) = Some listing \<Longrightarrow>
     deleteListing uid listingId s = (Success (), s') \<Longrightarrow>
     step (s, ps) (s, ListingSave listing (listing\<lparr> l_status := Cancelled \<rparr>) # ps)"
| step_goLive:
    "find (\<lambda>l. l_id l = listingId \<and> l_seller l = uid \<and> l_status l = Draft) (listings s)
       = Some listing \<Longrightarrow>
     goLive now uid listingId s = (Success listing', s') \<Longrightarrow>
     step (s, ps) (s, ListingSave listing listing' # ps)"
| step_cancelOffer:
    "find (\<lambda>b. o_id b = offerId \<and> o_buyer b = uid \<and> o_status b = OfferActive) (offers s)
       = Some offer \<Longrightarrow>
     cancelOffer w uid offerId s = (Success (), s') \<Longrightarrow>
     step (s, ps)
          (s, OfferSave offer (offer\<lparr> o_status := OfferCancelled,
                                       paymentIntentStatus := IntentCancelled \<rparr>) # ps)"
| step_transferTickets:
    "find (\<lambda>t. t_id t = transactionId \<and> t_seller t = uid \<and> deliveryStatus t = DeliveryPending)
       (transactions s) = Some t \<Longrightarrow>
     transferTickets now uid transactionId n s = (Success t', s') \<Longrightarrow>
     step (s, ps) (s, TransactionSave t t' # ps)"
| step_save: "p \<in> set ps \<Longrightarrow> step (s, ps) (save_pending p s, remove1 p ps)"

inductive reachable :: "store \<times> pending list \<Rightarrow> bool" where
  reachable_init:
    "offers s = [] \<Longrightarrow> listings s = [] \<Longrightarrow> transactions s = [] \<Longrightarrow> reachable (s, [])"
| reachable_step: "reachable c \<Longrightarrow> step c c' \<Longrightarrow> reachable c'"


section \<open>Offers with other expiry dates\<close>

definition with_expiry :: "(oid \<Rightarrow> date) \<Rightarrow> store \<Rightarrow> store" where
  \<comment> \<open>the store in which the offer with id \<open>i\<close> expires at \<open>f i\<close>\<close>
  "with_expiry f s = s\<lparr> offers := map (\<lambda>b. b\<lparr> expiresAt := f (o_id b) \<rparr>) (offers s) \<rparr>"

section \<open>Invariants of the store\<close>

definition store_inv :: "store \<Rightarrow> bool" where
  "store_inv s \<longleftrightarrow>
     (\<forall>b \<in> set (offers s). o_id b < next_id s)
     \<and> (\<forall>t \<in> set (transactions s). t_id t < next_id s \<and> buyerOffer t < next_id s)
     \<and> distinct (map buyerOffer (transactions s))
     \<and> (\<forall>t \<in> set (transactions s). \<forall>b \<in> set (offers s).
           o_id b = buyerOffer t \<longrightarrow> o_status b \<noteq> OfferActive)
     \<and> (\<forall>t \<in> set (transactions s).
           escrowStatus t = Held \<and> deliveryStatus t \<in> {DeliveryPending, Transferred})"

fun admissible :: "pending \<Rightarrow> bool" where
  \<comment> \<open>a save in flight that neither makes an offer \<open>active\<close> nor takes a delivery
      beyond \<open>transferred\<close>\<close>
  "admissible (OfferSave r n) = (o_status n \<noteq> OfferActive)"
| "admissible (ListingSave r n) = True"
| "admissible (TransactionSave r n) = (deliveryStatus n \<in> {DeliveryPending, Transferred})"

text \<open>
  The writes that the steps are made of, as far as offers and Transactions go. Every
  step changes the store by a sequence of them.
\<close>

inductive prim :: "store \<Rightarrow> store \<Rightarrow> bool" where
  prim_other:
    "offers s' = offers s \<Longrightarrow> transactions s' = transactions s \<Longrightarrow> next_id s \<le> next_id s' \<Longrightarrow>
     prim s s'"
| prim_new_offer:
    "o_id b = next_id s \<Longrightarrow>
     prim s (s\<lparr> offers := save_offer b (offers s), next_id := next_id s + 1 \<rparr>)"
| prim_offers:
    "\<forall>d. o_id (g d) = o_id d \<and> (o_status d \<noteq> OfferActive \<longrightarrow> o_status (g d) \<noteq> OfferActive) \<Longrightarrow>
     prim s (s\<lparr> offers := map g (offers s) \<rparr>)"
| prim_transactions:
    "\<forall>d. t_id (g d) = t_id d \<and> buyerOffer (g d) = buyerOffer d
         \<and> escrowStatus (g d) = escrowStatus d
         \<and> (deliveryStatus d \<in> {DeliveryPending, Transferred}
              \<longrightarrow> deliveryStatus (g d) \<in> {DeliveryPending, Transferred}) \<Longrightarrow>
     prim s (s\<lparr> transactions := map g (transactions s) \<rparr>)"
| prim_settle:
    "b0 \<in> set (offers s) \<Longrightarrow> o_status b0 = OfferActive \<Longrightarrow> o_id b = o_id b0 \<Longrightarrow>
     o_status b \<noteq> OfferActive \<Longrightarrow>
     next_id s \<le> t_id t \<Longrightarrow> t_id t < n \<Longrightarrow> buyerOffer t = o_id b0 \<Longrightarrow>
     escrowStatus t = Held \<Longrightarrow> deliveryStatus t = DeliveryPending \<Longrightarrow>
     prim s (s\<lparr> listings := ls, offers := save_offer b (offers s),
                 transactions := save_transaction t (transactions s),
                 next_id := n \<rparr>)"

section \<open>Concrete documents and stores for the examples\<close>

text \<open>
  Prices in the examples, as doubles: \<open>Fin 5 1\<close> is 10, \<open>Fin 25 2\<close> is 100,
  \<open>Fin 15 3\<close> is 120, \<open>Fin 75 1\<close> is 150, \<open>Fin 45 2\<close> is 180 and \<open>Fin 25 3\<close> is 200.
  The seller is user 3, the buyer user 2, the event has id 1 and takes place at time
  3600100, so that an offer on it expires at time 100.
\<close>

definition no_updates :: listing_body where
  "no_updates = \<lparr> b_eventId = None, b_section = None, b_row = None, b_seats = None, b_quantity = None,
                  b_askingPrice = None, b_minimumAcceptablePrice = None,
                  b_deliveryMethod = None, b_deliveryDetails = None,
                  b_goLiveAt = None, b_autoSell = None \<rparr>"

definition ex_listing :: "listing_status \<Rightarrow> bool \<Rightarrow> seller_listing" where
  "ex_listing st live =
     \<lparr> l_id = 5, l_seller = 3, l_event = 1, l_section = ''A'', l_row = None, l_seats = [],
       l_quantity = 2, askingPrice = None, minimumAcceptablePrice = Some (Fin 75 1),
       isLive = live, goLiveAt = None, autoSell = autoSell_default, l_status = st,
       l_deliveryMethod = Pdf, l_deliveryDetails = None, l_createdAt = 0 \<rparr>"


definition ex_event :: "jsnum option \<Rightarrow> event" where
  "ex_event avg = \<lparr> e_id = 1, dateTime = 3600100, averagePrice = avg, e_status = Upcoming \<rparr>"

definition ex_buyer :: user where
  "ex_buyer = \<lparr> u_id = 2, stripeCustomerId = Some ''cus_1'', stripeConnectAccountId = None \<rparr>"

definition ex_seller :: user where
  "ex_seller = \<lparr> u_id = 3, stripeCustomerId = None, stripeConnectAccountId = Some ''acct_1'' \<rparr>"

definition ex_offer :: "jsnum \<Rightarrow> buyer_offer" where
  "ex_offer p =
     \<lparr> o_id = 10, o_buyer = 2, o_event = 1, sections = [''A''], maxPrice = p, o_quantity = 2,
       o_suggestedPrice = Fin 0 0, acceptanceProbability = Fin 5 1,
       stripePaymentIntentId = ''pi_1'', paymentIntentStatus = IntentAuthorized,
       o_status = OfferActive, matchedListing = None, matchedAt = None,
       expiresAt = 100, o_createdAt = 0 \<rparr>"

definition ex_offer_store :: "jsnum \<Rightarrow> store" where
  "ex_offer_store p =
     \<lparr> offers = [ex_offer p], listings = [], transactions = [],
       events = [ex_event (Some (Fin 25 2))],
       users = [ex_buyer, ex_seller], next_id = 11 \<rparr>"

definition ex_accept :: accept_body where
  "ex_accept = \<lparr> a_section = ''A'', a_row = None, a_seats = [], a_deliveryMethod = Pdf,
                 a_deliveryDetails = None \<rparr>"

definition gateway_ok :: collaborators where
  "gateway_ok =
     \<lparr> paymentIntents_create = (\<lambda>amount. Returns ''pi_1''),
       paymentIntents_capture = (\<lambda>intent. Returns ()),
       paymentIntents_cancel = (\<lambda>intent. Returns ()),
       transfers_create = (\<lambda>t destination. Returns ''tr_1''),
       notifyMatch = (\<lambda>t. Returns ()),
       notifyDisputeParties = (\<lambda>t. Returns ()) \<rparr>"

definition gateway_declines :: collaborators where
  "gateway_declines = gateway_ok\<lparr> paymentIntents_capture := (\<lambda>intent. Throws ''card_declined'') \<rparr>"

definition ex_settled :: "date \<Rightarrow> jsnum \<Rightarrow> transaction" where
  \<comment> \<open>the Transaction that accepting \<open>ex_offer p\<close> at time \<open>now\<close> creates\<close>
  "ex_settled now p =
     accepted_transaction now 12 3 ex_accept (ex_offer p)
       (accepted_listing now 11 3 ex_accept (ex_offer p))"

definition ex_settled_store :: "date \<Rightarrow> jsnum \<Rightarrow> store" where
  \<comment> \<open>the store after \<open>ex_offer p\<close> of \<open>ex_offer_store p\<close> has been accepted at time \<open>now\<close>\<close>
  "ex_settled_store now p =
     \<lparr> offers = [(ex_offer p)\<lparr> o_status := OfferMatched, matchedListing := Some 11,
                                matchedAt := Some now \<rparr>],
       listings = [accepted_listing now 11 3 ex_accept (ex_offer p)],
       transactions = [ex_settled now p],
       events = [ex_event (Some (Fin 25 2))], users = [ex_buyer, ex_seller], next_id = 13 \<rparr>"

definition ex_empty_market :: "jsnum option \<Rightarrow> store" where
  \<comment> \<open>one event, no offers, no listings, no transactions\<close>
  "ex_empty_market avg =
     \<lparr> offers = [], listings = [], transactions = [], events = [ex_event avg],
       users = [], next_id = 2 \<rparr>"

definition ex_autosell_listing :: seller_listing where
  \<comment> \<open>an active listing with a minimum of 150 whose auto-sell trigger time is 10\<close>
  "ex_autosell_listing =
     (ex_listing Active True)
       \<lparr> autoSell := \<lparr> enabled = True, triggerTime = Some 10, acceptHighestOffer = True \<rparr> \<rparr>"




definition ex_initial_store :: store where
  "ex_initial_store =
     \<lparr> offers = [], listings = [], transactions = [],
       events = [ex_event (Some (Fin 25 2))], users = [ex_buyer, ex_seller], next_id = 10 \<rparr>"

definition ex_offer_body :: offer_body where
  "ex_offer_body = \<lparr> ob_eventId = 1, ob_sections = [''A''], ob_maxPrice = Fin 25 3, ob_quantity = 2 \<rparr>"



definition ex_autosell_store :: store where
  \<comment> \<open>an offer of 200 and a listing with a minimum of 150 that is due for auto-sell\<close>
  "ex_autosell_store =
     \<lparr> offers = [ex_offer (Fin 25 3)], listings = [ex_autosell_listing], transactions = [],
       events = [ex_event (Some (Fin 25 2))], users = [ex_buyer, ex_seller], next_id = 11 \<rparr>"

text \<open>
  A listing that is matched, saved by an update that had read it before the match, and
  matched again: the seller lists two tickets (listing 5), asks for an update with a
  \<open>goLiveAt\<close>, a buyer's offer (offer 6) is matched with the listing at time 10, the
  update is saved, the seller takes the listing live again at time 20, and a second
  offer (offer 8) is matched with it at time 30.
\<close>

definition ex_market_store :: store where
  "ex_market_store =
     \<lparr> offers = [], listings = [], transactions = [],
       events = [ex_event (Some (Fin 25 2))], users = [ex_buyer, ex_seller], next_id = 5 \<rparr>"

definition ex_listing_body :: listing_body where
  "ex_listing_body =
     no_updates\<lparr> b_eventId := Some 1, b_section := Some ''A'', b_quantity := Some 2,
                 b_minimumAcceptablePrice := Some (Fin 75 1), b_deliveryMethod := Some Pdf \<rparr>"

definition ex_listed_store :: store where
  "ex_listed_store = ex_market_store\<lparr> listings := [ex_listing Active True], next_id := 6 \<rparr>"

definition ex_later_body :: listing_body where
  "ex_later_body = no_updates\<lparr> b_goLiveAt := Some (JStr ''2031-05-01'') \<rparr>"

definition ex_redrafted :: seller_listing where
  "ex_redrafted = (ex_listing Draft False)\<lparr> goLiveAt := Some (JStr ''2031-05-01'') \<rparr>"

definition ex_relisted :: seller_listing where
  "ex_relisted = (ex_listing Active True)\<lparr> goLiveAt := Some (JDate 20) \<rparr>"

definition ex_matched_offer :: "oid \<Rightarrow> date \<Rightarrow> jsnum \<Rightarrow> jsnum \<Rightarrow> buyer_offer" where
  \<comment> \<open>an offer of 200 created and matched with listing 5 at time \<open>now\<close>\<close>
  "ex_matched_offer i now suggested prob =
     (ex_offer (Fin 25 3))\<lparr> o_id := i, o_suggestedPrice := suggested,
                            acceptanceProbability := prob, o_status := OfferMatched,
                            matchedListing := Some 5, matchedAt := Some now,
                            o_createdAt := now \<rparr>"

definition ex_match :: "oid \<Rightarrow> oid \<Rightarrow> date \<Rightarrow> transaction" where
  \<comment> \<open>the Transaction of a match of such an offer with listing 5\<close>
  "ex_match i offerId now =
     \<lparr> t_id = i, t_buyer = 2, t_seller = 3, buyerOffer = offerId, sellerListing = Some 5,
       t_event = 1, t_quantity = 2, t_section = ''A'', t_row = None, t_seats = [],
       salePrice = Fin 25 3, buyerPaid = Fin 25 3, sellerFee = Fin 5 2, sellerPayout = Fin 45 2,
       t_stripePaymentIntentId = ''pi_1'', stripeTransferId = None,
       paymentStatus = PaymentPending, payoutStatus = PayoutPending,
       deliveryStatus = DeliveryPending, t_deliveryMethod = Pdf,
       transferredAt = None, confirmedAt = None, escrowReleaseDate = None,
       escrowStatus = Held, hasDispute = False, disputeReason = None,
       t_notes = None, t_createdAt = now \<rparr>"

definition ex_once_matched_store :: "seller_listing \<Rightarrow> store" where
  \<comment> \<open>the store after the first match, with listing 5 as given\<close>
  "ex_once_matched_store l =
     \<lparr> offers = [ex_matched_offer 6 10 (Fin 0 0) (Fin 5 1)], listings = [l],
       transactions = [ex_match 7 6 10],
       events = [ex_event (Some (Fin 25 2))], users = [ex_buyer, ex_seller], next_id = 8 \<rparr>"

definition ex_twice_matched_store :: store where
  "ex_twice_matched_store =
     \<lparr> offers = [ex_matched_offer 6 10 (Fin 0 0) (Fin 5 1),
                 ex_matched_offer 8 30 (Fin 95 1) (Fin 95 0)],
       listings = [ex_relisted\<lparr> l_status := Matched \<rparr>],
       transactions = [ex_match 7 6 10, ex_match 9 8 30],
       events = [ex_event (Some (Fin 25 2))], users = [ex_buyer, ex_seller], next_id = 10 \<rparr>"


section \<open>Evaluation of the number model\<close>

lemmas js_eval = shl_def ilog2_guess_def ilog2_ratio_def round_half_even_def pack_def
  round_exp_def round_ratio_def round_scaled_def js_int_def js_lit_def js_sub_def
  js_max_def js_min_def js_truthy_def js_or_def bitlen.simps norm2.simps

section \<open>Listings: edits and deletion\<close>









section \<open>Settlement by acceptOffer\<close>

lemma js_int_0: "js_int 0 = Fin 0 0"
  by (simp add: js_eval)

lemma nonnegative_examples:
  "js_le (Fin 0 0) (Fin 25 3)" "js_le (Fin 0 0) (js_int 13)" "js_le (Fin 0 0) (js_int 200)"
  by (simp_all add: js_eval)

lemma accept_example:
  assumes "js_le (Fin 0 0) p"
  shows "acceptOffer gateway_ok now 3 10 ex_accept (ex_offer_store p)
     = (Success (ex_settled now p), ex_settled_store now p)"
  using assms
  by (simp add: acceptOffer_def validate_offer_def js_int_0 ex_offer_store_def ex_offer_def ex_event_def ex_buyer_def
        ex_seller_def ex_accept_def gateway_ok_def ex_settled_def ex_settled_store_def
        accepted_listing_def accepted_transaction_def validate_listing_def save_listing_def
        save_offer_def save_transaction_def save_doc_def Let_def)

lemma accept_example_declined:
  assumes "js_le (Fin 0 0) p"
  shows "acceptOffer gateway_declines now 3 10 ex_accept (ex_offer_store p)
     = (Failure 500 ''card_declined'', ex_offer_store p)"
  using assms
  by (simp add: acceptOffer_def validate_offer_def js_int_0 ex_offer_store_def ex_offer_def ex_event_def ex_buyer_def
        ex_seller_def ex_accept_def gateway_ok_def gateway_declines_def
        accepted_listing_def validate_listing_def Let_def)

lemma settled_prices:
  "salePrice (ex_settled now p) = p"
  "sellerFee (ex_settled now p) = js_mul p (js_lit 1 10)"
  "sellerPayout (ex_settled now p) = js_mul p (js_lit 9 10)"
  by (simp_all add: ex_settled_def accepted_transaction_def ex_offer_def)



text \<open>
  Claim C5: when the capture call throws, \<open>acceptOffer\<close> answers with an error and the
  store it leaves is the store it found: no offer, listing or Transaction has changed.
\<close>

theorem failed_capture_aborts_settlement:
  assumes "find (\<lambda>b. o_id b = offerId) (offers s) = Some offer"
    and "paymentIntents_capture w (stripePaymentIntentId offer) = Throws msg"
  shows "\<exists>code m. acceptOffer w now uid offerId body s = (Failure code m, s)"
  using assms by (simp add: acceptOffer_def Let_def)

theorem failed_capture_aborts_settlement_witness:
  "find (\<lambda>b. o_id b = 10) (offers (ex_offer_store (Fin 25 3))) = Some (ex_offer (Fin 25 3))
   \<and> paymentIntents_capture gateway_declines (stripePaymentIntentId (ex_offer (Fin 25 3)))
       = Throws ''card_declined''
   \<and> (\<exists>code m. acceptOffer gateway_declines 50 3 10 ex_accept (ex_offer_store (Fin 25 3))
                  = (Failure code m, ex_offer_store (Fin 25 3)))
   \<and> acceptOffer gateway_declines 50 3 10 ex_accept (ex_offer_store (Fin 25 3))
       = (Failure 500 ''card_declined'', ex_offer_store (Fin 25 3))"
proof -
  have f: "find (\<lambda>b. o_id b = 10) (offers (ex_offer_store (Fin 25 3))) = Some (ex_offer (Fin 25 3))"
    by (simp add: ex_offer_store_def ex_offer_def)
  have c: "paymentIntents_capture gateway_declines (stripePaymentIntentId (ex_offer (Fin 25 3)))
             = Throws ''card_declined''"
    by (simp add: gateway_declines_def gateway_ok_def)
  from failed_capture_aborts_settlement [OF f c, of 50 3 ex_accept] f c
    accept_example_declined [OF nonnegative_examples(1), of 50]
  show ?thesis by blast
qed

text \<open>
  Claim C2 at an offer of 13: the Transaction that \<open>acceptOffer\<close> creates has sale price
  13, fee \<open>13 * 0.1 = 1.3\<close> and payout \<open>13 * 0.9 = 11.700000000000001\<close>; their sum
  is \<open>13.000000000000002\<close>, which is not the sale price.
\<close>

theorem fee_and_payout_of_13_do_not_add_up:
  "acceptOffer gateway_ok 50 3 10 ex_accept (ex_offer_store (js_int 13))
       = (Success (ex_settled 50 (js_int 13)), ex_settled_store 50 (js_int 13))
   \<and> salePrice (ex_settled 50 (js_int 13)) = js_int 13
   \<and> sellerFee (ex_settled 50 (js_int 13)) = Fin 5854679515581645 (- 52)
   \<and> sellerPayout (ex_settled 50 (js_int 13)) = Fin 6586514455029351 (- 49)
   \<and> js_add (sellerFee (ex_settled 50 (js_int 13))) (sellerPayout (ex_settled 50 (js_int 13)))
        = Fin 7318349394477057 (- 49)
   \<and> js_add (sellerFee (ex_settled 50 (js_int 13))) (sellerPayout (ex_settled 50 (js_int 13)))
        \<noteq> salePrice (ex_settled 50 (js_int 13))"
  by (simp add: accept_example nonnegative_examples settled_prices) (simp add: js_eval)

text \<open>
  The scenario of the specification, an offer of 200: sale price 200, fee 20, payout
  180, and both the offer and the listing end \<open>matched\<close>.
\<close>

lemma settlement_of_200:
  "acceptOffer gateway_ok 50 3 10 ex_accept (ex_offer_store (js_int 200))
       = (Success (ex_settled 50 (js_int 200)), ex_settled_store 50 (js_int 200))
   \<and> salePrice (ex_settled 50 (js_int 200)) = js_int 200
   \<and> sellerFee (ex_settled 50 (js_int 200)) = js_int 20
   \<and> sellerPayout (ex_settled 50 (js_int 200)) = js_int 180
   \<and> map o_status (offers (ex_settled_store 50 (js_int 200))) = [OfferMatched]
   \<and> map l_status (listings (ex_settled_store 50 (js_int 200))) = [Matched]"
  by (simp add: accept_example nonnegative_examples settled_prices)
     (simp add: ex_settled_store_def accepted_listing_def js_eval)

lemma find_map_same_key:
  assumes "\<And>x. k (g x) = k x"
  shows "find (\<lambda>x. k x = i) (map g xs) = map_option g (find (\<lambda>x. k x = i) xs)"
  by (induction xs) (simp_all add: assms)

lemma save_doc_map_same_key:
  assumes "\<And>x. k (g x) = k x"
  shows "save_doc k (g d) (map g ds) = map g (save_doc k d ds)"
proof -
  have "k ` g ` set ds = k ` set ds"
    by (simp add: image_image assms)
  then show ?thesis
    by (simp add: save_doc_def assms)
qed

lemma acceptOffer_with_expiry:
  "acceptOffer w now uid offerId body (with_expiry f s)
     = (fst (acceptOffer w now uid offerId body s),
        with_expiry f (snd (acceptOffer w now uid offerId body s)))"
proof (cases "find (\<lambda>b. o_id b = offerId) (offers s)")
  case None
  then have "find (\<lambda>b. o_id b = offerId) (offers (with_expiry f s)) = None"
    by (simp add: with_expiry_def find_map_same_key [of o_id])
  with None show ?thesis by (simp add: acceptOffer_def)
next
  case (Some offer)
  let ?g = "\<lambda>b. b\<lparr> expiresAt := f (o_id b) \<rparr>"
  have f: "find (\<lambda>b. o_id b = offerId) (offers (with_expiry f s)) = Some (?g offer)"
    using Some by (simp add: with_expiry_def find_map_same_key [of o_id])
  have sv: "save_offer (?g d) (map ?g ds) = map ?g (save_offer d ds)" for d ds
    unfolding save_offer_def by (rule save_doc_map_same_key) simp
  have sv': "save_offer (d\<lparr> expiresAt := f (o_id d), o_status := OfferMatched,
                            matchedListing := x, matchedAt := y \<rparr>) (map ?g ds)
             = map ?g (save_offer (d\<lparr> o_status := OfferMatched, matchedListing := x,
                                      matchedAt := y \<rparr>) ds)" for d x y ds
  proof -
    have "d\<lparr> expiresAt := f (o_id d), o_status := OfferMatched, matchedListing := x, matchedAt := y \<rparr>
          = ?g (d\<lparr> o_status := OfferMatched, matchedListing := x, matchedAt := y \<rparr>)"
      by (cases d) simp
    then show ?thesis
      by (simp only: sv)
  qed
  show ?thesis
    unfolding acceptOffer_def f Some
    by (simp add: Let_def with_expiry_def accepted_listing_def accepted_transaction_def
          validate_offer_def sv' split: outcome.splits)
qed

text \<open>
  Claim C3, as the code has it. \<open>acceptOffer\<close> rejects an offer whose status is not
  \<open>active\<close> and leaves the store as it was. It does not read \<open>expiresAt\<close>: in a store
  where the offers expire at other times it gives the same answer and leaves the same
  store, up to these times. Nor does the instant-match check made when an offer is
  created: the listing it selects for an offer does not depend on the offer's
  \<open>expiresAt\<close>.
\<close>

theorem accept_offer_reads_status_not_expiry:
  "(find (\<lambda>b. o_id b = offerId) (offers s) = Some offer \<longrightarrow> o_status offer \<noteq> OfferActive \<longrightarrow>
      acceptOffer w now uid offerId body s = (Failure 500 ''Offer not available'', s))
   \<and> acceptOffer w now uid offerId body (with_expiry f s)
       = (fst (acceptOffer w now uid offerId body s),
          with_expiry f (snd (acceptOffer w now uid offerId body s)))
   \<and> bestListing (b\<lparr> expiresAt := e \<rparr>) ls = bestListing b ls"
proof (intro conjI impI)
  show "acceptOffer w now uid offerId body s = (Failure 500 ''Offer not available'', s)"
    if "find (\<lambda>b. o_id b = offerId) (offers s) = Some offer" "o_status offer \<noteq> OfferActive"
    using that by (simp add: acceptOffer_def)
  show "acceptOffer w now uid offerId body (with_expiry f s)
       = (fst (acceptOffer w now uid offerId body s),
          with_expiry f (snd (acceptOffer w now uid offerId body s)))"
    by (rule acceptOffer_with_expiry)
  show "bestListing (b\<lparr> expiresAt := e \<rparr>) ls = bestListing b ls"
    by (simp add: bestListing_def matchingListings_def cong: option.case_cong)
qed

theorem accept_offer_reads_status_not_expiry_witness:
  "(find (\<lambda>b. o_id b = 10) (offers (ex_settled_store 50 (Fin 25 3)))
      = Some ((ex_offer (Fin 25 3))\<lparr> o_status := OfferMatched, matchedListing := Some 11,
                                      matchedAt := Some 50 \<rparr>)
    \<and> o_status ((ex_offer (Fin 25 3))\<lparr> o_status := OfferMatched, matchedListing := Some 11,
                                        matchedAt := Some 50 \<rparr>) \<noteq> OfferActive
    \<and> acceptOffer gateway_ok 60 3 10 ex_accept (ex_settled_store 50 (Fin 25 3))
        = (Failure 500 ''Offer not available'', ex_settled_store 50 (Fin 25 3)))
   \<and> acceptOffer gateway_ok 60 3 10 ex_accept (with_expiry (\<lambda>i. 0) (ex_offer_store (Fin 25 3)))
       = (Success (ex_settled 60 (Fin 25 3)), with_expiry (\<lambda>i. 0) (ex_settled_store 60 (Fin 25 3)))
   \<and> bestListing ((ex_offer (Fin 25 3))\<lparr> expiresAt := 0 \<rparr>) [ex_listing Active True]
       = bestListing (ex_offer (Fin 25 3)) [ex_listing Active True]"
proof -
  have f: "find (\<lambda>b. o_id b = 10) (offers (ex_settled_store 50 (Fin 25 3)))
      = Some ((ex_offer (Fin 25 3))\<lparr> o_status := OfferMatched, matchedListing := Some 11,
                                      matchedAt := Some 50 \<rparr>)"
    by (simp add: ex_settled_store_def ex_offer_def)
  have n: "o_status ((ex_offer (Fin 25 3))\<lparr> o_status := OfferMatched, matchedListing := Some 11,
                                        matchedAt := Some 50 \<rparr>) \<noteq> OfferActive"
    by simp
  note a = accept_example [OF nonnegative_examples(1), of 60]
  note t1 = accept_offer_reads_status_not_expiry
              [of 10 "ex_settled_store 50 (Fin 25 3)" _ gateway_ok 60 3 ex_accept]
  note t2 = accept_offer_reads_status_not_expiry
              [where offerId = 10 and s = "ex_offer_store (Fin 25 3)" and w = gateway_ok
                 and now = 60 and uid = 3 and body = ex_accept and f = "\<lambda>i. 0"
                 and b = "ex_offer (Fin 25 3)" and e = 0 and ls = "[ex_listing Active True]"]
  from t1 f n
  have c1: "acceptOffer gateway_ok 60 3 10 ex_accept (ex_settled_store 50 (Fin 25 3))
        = (Failure 500 ''Offer not available'', ex_settled_store 50 (Fin 25 3))"
    by blast
  from t2 a
  have c2: "acceptOffer gateway_ok 60 3 10 ex_accept (with_expiry (\<lambda>i. 0) (ex_offer_store (Fin 25 3)))
       = (Success (ex_settled 60 (Fin 25 3)), with_expiry (\<lambda>i. 0) (ex_settled_store 60 (Fin 25 3)))"
    by simp
  from t2
  have c3: "bestListing ((ex_offer (Fin 25 3))\<lparr> expiresAt := 0 \<rparr>) [ex_listing Active True]
       = bestListing (ex_offer (Fin 25 3)) [ex_listing Active True]"
    by blast
  from f n c1 c2 c3 show ?thesis by blast
qed

text \<open>
  Claim C3 as stated fails: an offer that expired at time 100 and is still \<open>active\<close>
  is accepted at time 200 and becomes \<open>matched\<close>.
\<close>

theorem expired_active_offer_is_matched:
  "expiresAt (ex_offer (Fin 25 3)) < 200
   \<and> o_status (ex_offer (Fin 25 3)) = OfferActive
   \<and> acceptOffer gateway_ok 200 3 10 ex_accept (ex_offer_store (Fin 25 3))
       = (Success (ex_settled 200 (Fin 25 3)), ex_settled_store 200 (Fin 25 3))
   \<and> map o_status (offers (ex_settled_store 200 (Fin 25 3))) = [OfferMatched]"
  by (simp add: accept_example [OF nonnegative_examples(1)])
     (simp add: ex_offer_def ex_settled_store_def)

section \<open>The pricing engine\<close>

text \<open>
  Claim C8 on an empty market: with no active offer and no transaction the suggested
  price is 0, and the probability is \<open>NaN\<close>, both when the event's average price is 0
  and when it is absent (\<open>0 / 0\<close> and \<open>0 / undefined\<close> are \<open>NaN\<close>, which \<open>Math.max\<close>
  and \<open>Math.min\<close> hand on).
\<close>

theorem empty_market_probability_is_NaN:
  "calculateSuggestedPrice (ex_empty_market (Some (Fin 0 0))) 1 [''A''] (js_int 200) 2
     = Returns \<lparr> suggestedPrice = Fin 0 0, probability = NaN, avgOfferPrice = Fin 0 0,
                 avgSalePrice = Fin 0 0, activeOffers = 0 \<rparr>
   \<and> calculateSuggestedPrice (ex_empty_market None) 1 [''A''] (js_int 200) 2
     = Returns \<lparr> suggestedPrice = Fin 0 0, probability = NaN, avgOfferPrice = Fin 0 0,
                 avgSalePrice = Fin 0 0, activeOffers = 0 \<rparr>"
  by (simp add: calculateSuggestedPrice_def ex_empty_market_def ex_event_def average_def
        sum_prices_def calculateAcceptanceProbability_def to_number_def Let_def js_eval)

section \<open>The auto-sell sweep\<close>

lemma autoSellLoop_throws:
  "autoSellLoop w now ls s
     = (if ls = [] then (Returns (), s) else (Throws ''BuyerOffer is not defined'', s))"
  by (cases ls) (simp_all add: findBestOfferForListing_def)

lemma processAutoSellListings_store:
  "snd (processAutoSellListings w now s) = s"
  by (simp add: processAutoSellListings_def autoSellLoop_throws)

text \<open>
  Claim C7 at a listing that is due for auto-sell (enabled, trigger time 10, sweep at
  time 20, highest offer to be accepted) with a minimum of 150, and an active offer of
  200 on the same event and section for the same quantity: the sweep processes the
  listing and throws a ReferenceError at \<open>BuyerOffer.find\<close>. No offer is selected and
  the store stays as it was; the offer and the listing are still \<open>active\<close>.
\<close>

theorem auto_sell_sweep_selects_no_offer:
  "listingsToProcess 20 (listings ex_autosell_store) = [ex_autosell_listing]
   \<and> enabled (autoSell ex_autosell_listing) \<and> acceptHighestOffer (autoSell ex_autosell_listing)
   \<and> minimumAcceptablePrice ex_autosell_listing = Some (Fin 75 1)
   \<and> offers ex_autosell_store = [ex_offer (Fin 25 3)]
   \<and> o_event (ex_offer (Fin 25 3)) = l_event ex_autosell_listing
   \<and> l_section ex_autosell_listing \<in> set (sections (ex_offer (Fin 25 3)))
   \<and> o_status (ex_offer (Fin 25 3)) = OfferActive
   \<and> l_quantity ex_autosell_listing \<le> o_quantity (ex_offer (Fin 25 3))
   \<and> js_le (Fin 75 1) (maxPrice (ex_offer (Fin 25 3)))
   \<and> processAutoSellListings gateway_ok 20 ex_autosell_store
       = (Throws ''BuyerOffer is not defined'', ex_autosell_store)"
  by (simp add: processAutoSellListings_def listingsToProcess_def findBestOfferForListing_def
        ex_autosell_store_def ex_autosell_listing_def ex_listing_def ex_offer_def shl_def)

section \<open>The instant-match selection\<close>























section \<open>Invariants\<close>

lemma set_save_doc: "set (save_doc k d ds) = insert d {x \<in> set ds. k x \<noteq> k d}"
proof (cases "k d \<in> k ` set ds")
  case True
  then show ?thesis by (auto simp: save_doc_def)
next
  case False
  then have "k x \<noteq> k d" if "x \<in> set ds" for x using that by (metis image_eqI)
  with False show ?thesis by (auto simp: save_doc_def)
qed

lemma map_save_doc_new:
  "k d \<notin> k ` set ds \<Longrightarrow> map f (save_doc k d ds) = map f ds @ [f d]"
  by (simp add: save_doc_def)

lemma find_SomeD: "find P xs = Some x \<Longrightarrow> x \<in> set xs \<and> P x"
  by (induction xs) (auto split: if_splits)

lemma inv_other:
  assumes "store_inv s" "offers s' = offers s" "transactions s' = transactions s"
    "next_id s \<le> next_id s'"
  shows "store_inv s'"
  using assms unfolding store_inv_def by (auto intro: less_le_trans)

lemma inv_new_offer:
  assumes "store_inv s" "o_id b = next_id s"
  shows "store_inv (s\<lparr> offers := save_offer b (offers s), next_id := next_id s + 1 \<rparr>)"
proof -
  from assms have ids: "\<forall>x \<in> set (offers s). o_id x < next_id s"
    and refs: "\<forall>t \<in> set (transactions s). t_id t < next_id s \<and> buyerOffer t < next_id s"
    and dist: "distinct (map buyerOffer (transactions s))"
    and act: "\<forall>t \<in> set (transactions s). \<forall>x \<in> set (offers s).
                o_id x = buyerOffer t \<longrightarrow> o_status x \<noteq> OfferActive"
    and held: "\<forall>t \<in> set (transactions s).
                escrowStatus t = Held \<and> deliveryStatus t \<in> {DeliveryPending, Transferred}"
    by (simp_all add: store_inv_def)
  have mem: "x \<in> set (save_offer b (offers s)) \<Longrightarrow> x = b \<or> x \<in> set (offers s)" for x
    by (auto simp: save_offer_def set_save_doc)
  have "\<forall>x \<in> set (save_offer b (offers s)). o_id x < next_id s + 1"
    using mem ids assms(2) by fastforce
  moreover have "\<forall>t \<in> set (transactions s). t_id t < next_id s + 1 \<and> buyerOffer t < next_id s + 1"
    using refs by fastforce
  moreover have "\<forall>t \<in> set (transactions s). \<forall>x \<in> set (save_offer b (offers s)).
                o_id x = buyerOffer t \<longrightarrow> o_status x \<noteq> OfferActive"
  proof (intro ballI impI)
    fix t x assume t: "t \<in> set (transactions s)" and x: "x \<in> set (save_offer b (offers s))"
      and e: "o_id x = buyerOffer t"
    from refs t have "buyerOffer t < next_id s" by blast
    with e assms(2) have "x \<noteq> b" by auto
    with mem [OF x] have "x \<in> set (offers s)" by blast
    with act t e show "o_status x \<noteq> OfferActive" by blast
  qed
  ultimately show ?thesis
    using dist held by (simp add: store_inv_def)
qed

lemma inv_offers:
  assumes "store_inv s"
    "\<forall>d. o_id (g d) = o_id d \<and> (o_status d \<noteq> OfferActive \<longrightarrow> o_status (g d) \<noteq> OfferActive)"
  shows "store_inv (s\<lparr> offers := map g (offers s) \<rparr>)"
  using assms unfolding store_inv_def by auto

lemma inv_transactions:
  assumes "store_inv s"
    "\<forall>d. t_id (g d) = t_id d \<and> buyerOffer (g d) = buyerOffer d
         \<and> escrowStatus (g d) = escrowStatus d
         \<and> (deliveryStatus d \<in> {DeliveryPending, Transferred}
              \<longrightarrow> deliveryStatus (g d) \<in> {DeliveryPending, Transferred})"
  shows "store_inv (s\<lparr> transactions := map g (transactions s) \<rparr>)"
proof -
  from assms(2) have "map buyerOffer (map g (transactions s)) = map buyerOffer (transactions s)"
    by simp
  with assms show ?thesis
    unfolding store_inv_def by (auto simp del: map_map)
qed

lemma inv_settle:
  assumes inv: "store_inv s"
    and b0: "b0 \<in> set (offers s)" "o_status b0 = OfferActive"
    and b: "o_id b = o_id b0" "o_status b \<noteq> OfferActive"
    and t: "next_id s \<le> t_id t" "t_id t < n" "buyerOffer t = o_id b0"
    and h: "escrowStatus t = Held" "deliveryStatus t = DeliveryPending"
  shows "store_inv (s\<lparr> listings := ls, offers := save_offer b (offers s),
                       transactions := save_transaction t (transactions s),
                       next_id := n \<rparr>)"
proof -
  from inv have ids: "\<forall>x \<in> set (offers s). o_id x < next_id s"
    and refs: "\<forall>t \<in> set (transactions s). t_id t < next_id s \<and> buyerOffer t < next_id s"
    and dist: "distinct (map buyerOffer (transactions s))"
    and act: "\<forall>t \<in> set (transactions s). \<forall>x \<in> set (offers s).
                o_id x = buyerOffer t \<longrightarrow> o_status x \<noteq> OfferActive"
    and held: "\<forall>t \<in> set (transactions s).
                escrowStatus t = Held \<and> deliveryStatus t \<in> {DeliveryPending, Transferred}"
    by (simp_all add: store_inv_def)
  from t have n: "next_id s < n" by simp
  have mem: "x \<in> set (save_offer b (offers s)) \<Longrightarrow> x = b \<or> (x \<in> set (offers s) \<and> o_id x \<noteq> o_id b)"
    for x
    by (auto simp: save_offer_def set_save_doc)
  have new: "t_id t \<notin> t_id ` set (transactions s)"
    using refs t(1) by fastforce
  then have txs: "save_transaction t (transactions s) = transactions s @ [t]"
    by (simp add: save_transaction_def save_doc_def)
  have unref: "buyerOffer t \<notin> buyerOffer ` set (transactions s)"
  proof
    assume "buyerOffer t \<in> buyerOffer ` set (transactions s)"
    then obtain t' where "t' \<in> set (transactions s)" "buyerOffer t' = o_id b0"
      using t(3) by auto
    with act b0 show False by auto
  qed
  have 1: "\<forall>x \<in> set (save_offer b (offers s)). o_id x < n"
  proof
    fix x assume "x \<in> set (save_offer b (offers s))"
    from mem [OF this] ids b0(1) b(1) n show "o_id x < n" by fastforce
  qed
  have 2: "\<forall>u \<in> set (transactions s @ [t]). t_id u < n \<and> buyerOffer u < n"
  proof
    fix u assume "u \<in> set (transactions s @ [t])"
    then have "u = t \<or> u \<in> set (transactions s)" by auto
    then show "t_id u < n \<and> buyerOffer u < n"
    proof
      assume "u = t"
      with t ids b0(1) n show ?thesis by fastforce
    next
      assume "u \<in> set (transactions s)"
      with refs n show ?thesis by fastforce
    qed
  qed
  have 3: "distinct (map buyerOffer (transactions s @ [t]))"
    using dist unref by simp
  have 4: "\<forall>u \<in> set (transactions s @ [t]). \<forall>x \<in> set (save_offer b (offers s)).
             o_id x = buyerOffer u \<longrightarrow> o_status x \<noteq> OfferActive"
  proof (intro ballI impI)
    fix u x assume u: "u \<in> set (transactions s @ [t])"
      and x: "x \<in> set (save_offer b (offers s))" and e: "o_id x = buyerOffer u"
    from mem [OF x] show "o_status x \<noteq> OfferActive"
    proof
      assume "x = b" with b(2) show ?thesis by simp
    next
      assume x': "x \<in> set (offers s) \<and> o_id x \<noteq> o_id b"
      with e t(3) b(1) have "u \<noteq> t" by auto
      with u have "u \<in> set (transactions s)" by auto
      with act x' e show ?thesis by blast
    qed
  qed
  have 5: "\<forall>u \<in> set (transactions s @ [t]).
             escrowStatus u = Held \<and> deliveryStatus u \<in> {DeliveryPending, Transferred}"
    using held h by auto
  from 1 2 3 4 5 show ?thesis
    by (simp add: store_inv_def txs)
qed

lemma prim_preserves_inv: "prim s s' \<Longrightarrow> store_inv s \<Longrightarrow> store_inv s'"
proof (induction rule: prim.induct)
  case (prim_other s' s)
  then show ?case by (auto intro: inv_other)
next
  case (prim_new_offer b s)
  from prim_new_offer.prems prim_new_offer.hyps show ?case by (rule inv_new_offer)
next
  case (prim_offers g s)
  then show ?case by (auto intro: inv_offers)
next
  case (prim_transactions g s)
  then show ?case by (auto intro: inv_transactions)
next
  case (prim_settle b0 s b t n ls)
  from prim_settle.prems prim_settle.hyps show ?case by (rule inv_settle)
qed

lemma prims_preserve_inv: "prim\<^sup>*\<^sup>* s s' \<Longrightarrow> store_inv s \<Longrightarrow> store_inv s'"
  by (induction rule: rtranclp_induct) (auto intro: prim_preserves_inv)

section \<open>The steps as sequences of writes\<close>

lemma acceptOffer_result:
  "snd (acceptOffer w now uid offerId body s) = s
   \<or> (\<exists>offer. find (\<lambda>b. o_id b = offerId) (offers s) = Some offer
        \<and> o_status offer = OfferActive
        \<and> snd (acceptOffer w now uid offerId body s)
          = s\<lparr> listings := save_listing (accepted_listing now (next_id s) uid body offer) (listings s),
               offers := save_offer (offer\<lparr> o_status := OfferMatched,
                                           matchedListing := Some (next_id s),
                                           matchedAt := Some now \<rparr>) (offers s),
               transactions := save_transaction
                 (accepted_transaction now (next_id s + 1) uid body offer
                    (accepted_listing now (next_id s) uid body offer)) (transactions s),
               next_id := next_id s + 2 \<rparr>)"
proof (cases "find (\<lambda>b. o_id b = offerId) (offers s)")
  case None
  then show ?thesis by (simp add: acceptOffer_def)
next
  case (Some offer)
  have [simp]: "l_id (accepted_listing now (next_id s) uid body offer) = next_id s"
    by (simp add: accepted_listing_def)
  from Some show ?thesis
    unfolding acceptOffer_def Let_def
    by (simp split: outcome.splits)
qed

lemma acceptOffer_prims: "prim\<^sup>*\<^sup>* s (snd (acceptOffer w now uid offerId body s))"
proof -
  from acceptOffer_result [of w now uid offerId body s] show ?thesis
  proof
    assume "snd (acceptOffer w now uid offerId body s) = s"
    then show ?thesis by simp
  next
    assume "\<exists>offer. find (\<lambda>b. o_id b = offerId) (offers s) = Some offer
        \<and> o_status offer = OfferActive
        \<and> snd (acceptOffer w now uid offerId body s)
          = s\<lparr> listings := save_listing (accepted_listing now (next_id s) uid body offer) (listings s),
               offers := save_offer (offer\<lparr> o_status := OfferMatched,
                                           matchedListing := Some (next_id s),
                                           matchedAt := Some now \<rparr>) (offers s),
               transactions := save_transaction
                 (accepted_transaction now (next_id s + 1) uid body offer
                    (accepted_listing now (next_id s) uid body offer)) (transactions s),
               next_id := next_id s + 2 \<rparr>"
    then obtain offer where f: "find (\<lambda>b. o_id b = offerId) (offers s) = Some offer"
      and a: "o_status offer = OfferActive"
      and r: "snd (acceptOffer w now uid offerId body s)
          = s\<lparr> listings := save_listing (accepted_listing now (next_id s) uid body offer) (listings s),
               offers := save_offer (offer\<lparr> o_status := OfferMatched,
                                           matchedListing := Some (next_id s),
                                           matchedAt := Some now \<rparr>) (offers s),
               transactions := save_transaction
                 (accepted_transaction now (next_id s + 1) uid body offer
                    (accepted_listing now (next_id s) uid body offer)) (transactions s),
               next_id := next_id s + 2 \<rparr>"
      by blast
    from f have m: "offer \<in> set (offers s)" by (simp add: find_SomeD)
    have "prim s (snd (acceptOffer w now uid offerId body s))"
      unfolding r
      by (rule prim_settle [OF m a]) (simp_all add: accepted_transaction_def)
    then show ?thesis by (rule r_into_rtranclp)
  qed
qed

lemma createMatch_result:
  "snd (createMatch w now offer0 listing0 s) = s
   \<or> (\<exists>offer listing t. find (\<lambda>b. o_id b = o_id offer0) (offers s) = Some offer
        \<and> o_status offer = OfferActive \<and> t_id t = next_id s \<and> buyerOffer t = o_id offer
        \<and> escrowStatus t = Held \<and> deliveryStatus t = DeliveryPending
        \<and> snd (createMatch w now offer0 listing0 s)
          = s\<lparr> listings := save_listing (listing\<lparr> l_status := Matched \<rparr>) (listings s),
               offers := save_offer (offer\<lparr> o_status := OfferMatched,
                                           matchedListing := Some (l_id listing),
                                           matchedAt := Some now \<rparr>) (offers s),
               transactions := save_transaction t (transactions s),
               next_id := next_id s + 1 \<rparr>)"
proof (cases "find (\<lambda>b. o_id b = o_id offer0) (offers s)")
  case None
  then show ?thesis by (simp add: createMatch_def)
next
  case o: (Some offer)
  show ?thesis
  proof (cases "find (\<lambda>l. l_id l = l_id listing0) (listings s)")
    case None
    with o show ?thesis by (simp add: createMatch_def)
  next
    case (Some listing)
    have swap: "s\<lparr> offers := a, listings := b, transactions := c, next_id := d \<rparr>
                = s\<lparr> listings := b, offers := a, transactions := c, next_id := d \<rparr>" for a b c d
      by (cases s) simp
    show ?thesis
    proof (cases "o_status offer = OfferActive \<and> l_status listing = Active
                  \<and> l_section listing \<in> set (sections offer)
                  \<and> l_quantity listing \<le> o_quantity offer
                  \<and> paymentIntents_capture w (stripePaymentIntentId offer) = Returns ()")
      case False
      with o Some have "snd (createMatch w now offer0 listing0 s) = s"
        unfolding createMatch_def by (auto split: outcome.splits)
      then show ?thesis by blast
    next
      case True
      define t where "t =
            \<lparr> t_id = next_id s, t_buyer = o_buyer offer, t_seller = l_seller listing,
              buyerOffer = o_id offer, sellerListing = Some (l_id listing),
              t_event = o_event offer, t_quantity = l_quantity listing,
              t_section = l_section listing, t_row = l_row listing,
              t_seats = l_seats listing,
              salePrice = maxPrice offer, buyerPaid = maxPrice offer,
              sellerFee = js_mul (maxPrice offer) (js_lit 10 100),
              sellerPayout = js_sub (maxPrice offer)
                               (js_mul (maxPrice offer) (js_lit 10 100)),
              t_stripePaymentIntentId = stripePaymentIntentId offer,
              stripeTransferId = None, paymentStatus = PaymentPending,
              payoutStatus = PayoutPending, deliveryStatus = DeliveryPending,
              t_deliveryMethod = l_deliveryMethod listing,
              transferredAt = None, confirmedAt = None, escrowReleaseDate = None,
              escrowStatus = Held, hasDispute = False, disputeReason = None,
              t_notes = None, t_createdAt = now \<rparr>"
      from o Some True
      have r: "snd (createMatch w now offer0 listing0 s)
          = s\<lparr> listings := save_listing (listing\<lparr> l_status := Matched \<rparr>) (listings s),
               offers := save_offer (offer\<lparr> o_status := OfferMatched,
                                           matchedListing := Some (l_id listing),
                                           matchedAt := Some now \<rparr>) (offers s),
               transactions := save_transaction t (transactions s),
               next_id := next_id s + 1 \<rparr>"
        unfolding createMatch_def t_def by (simp add: swap)
      have "t_id t = next_id s" "buyerOffer t = o_id offer"
        "escrowStatus t = Held" "deliveryStatus t = DeliveryPending"
        by (simp_all add: t_def)
      with o True r show ?thesis by blast
    qed
  qed
qed

lemma createMatch_prims: "prim\<^sup>*\<^sup>* s (snd (createMatch w now offer0 listing0 s))"
proof -
  from createMatch_result [of w now offer0 listing0 s] show ?thesis
  proof
    assume "snd (createMatch w now offer0 listing0 s) = s"
    then show ?thesis by simp
  next
    assume "\<exists>offer listing t. find (\<lambda>b. o_id b = o_id offer0) (offers s) = Some offer
        \<and> o_status offer = OfferActive \<and> t_id t = next_id s \<and> buyerOffer t = o_id offer
        \<and> escrowStatus t = Held \<and> deliveryStatus t = DeliveryPending
        \<and> snd (createMatch w now offer0 listing0 s)
          = s\<lparr> listings := save_listing (listing\<lparr> l_status := Matched \<rparr>) (listings s),
               offers := save_offer (offer\<lparr> o_status := OfferMatched,
                                           matchedListing := Some (l_id listing),
                                           matchedAt := Some now \<rparr>) (offers s),
               transactions := save_transaction t (transactions s),
               next_id := next_id s + 1 \<rparr>"
    then obtain offer listing t
      where f: "find (\<lambda>b. o_id b = o_id offer0) (offers s) = Some offer"
        and a: "o_status offer = OfferActive"
        and t: "t_id t = next_id s" "buyerOffer t = o_id offer"
               "escrowStatus t = Held" "deliveryStatus t = DeliveryPending"
        and r: "snd (createMatch w now offer0 listing0 s)
          = s\<lparr> listings := save_listing (listing\<lparr> l_status := Matched \<rparr>) (listings s),
               offers := save_offer (offer\<lparr> o_status := OfferMatched,
                                           matchedListing := Some (l_id listing),
                                           matchedAt := Some now \<rparr>) (offers s),
               transactions := save_transaction t (transactions s),
               next_id := next_id s + 1 \<rparr>"
      by blast
    from f have m: "offer \<in> set (offers s)" by (simp add: find_SomeD)
    have "prim s (snd (createMatch w now offer0 listing0 s))"
      unfolding r
      by (rule prim_settle [OF m a]) (simp_all add: t)
    then show ?thesis by (rule r_into_rtranclp)
  qed
qed

lemma checkForInstantMatch_prims: "prim\<^sup>*\<^sup>* s (snd (checkForInstantMatch w now offer s))"
  by (simp add: checkForInstantMatch_def createMatch_prims split: option.splits)

lemma createOffer_prims: "prim\<^sup>*\<^sup>* s (snd (createOffer w now uid body s))"
proof -
  have new: "prim\<^sup>*\<^sup>* s (snd (checkForInstantMatch w now b
                  (s\<lparr> offers := save_offer b (offers s), next_id := next_id s + 1 \<rparr>)))"
    if "o_id b = next_id s" for b
  proof -
    from that have "prim s (s\<lparr> offers := save_offer b (offers s), next_id := next_id s + 1 \<rparr>)"
      by (rule prim_new_offer)
    then show ?thesis
      by (rule converse_rtranclp_into_rtranclp) (rule checkForInstantMatch_prims)
  qed
  show ?thesis
    unfolding createOffer_def Let_def
    by (auto split: option.splits outcome.splits prod.splits
          dest!: arg_cong [where f = snd] simp: new [simplified])
qed

lemma bulkSave_keeps:
  "offers (snd (bulkSave now uid bodies s)) = offers s
   \<and> transactions (snd (bulkSave now uid bodies s)) = transactions s
   \<and> next_id s \<le> next_id (snd (bulkSave now uid bodies s))"
proof (induction bodies arbitrary: s)
  case Nil
  then show ?case by simp
next
  case (Cons body bodies)
  show ?case
  proof (cases "new_listing now (next_id s) uid body")
    case None
    with Cons.IH [of s] show ?thesis by simp
  next
    case (Some listing)
    show ?thesis
    proof (cases "validate_listing listing")
      case False
      with Some Cons.IH [of s] show ?thesis by simp
    next
      case True
      with Some
        Cons.IH [of "s\<lparr> listings := save_listing listing (listings s), next_id := next_id s + 1 \<rparr>"]
      show ?thesis by simp
    qed
  qed
qed

lemma bulkUpload_prims: "prim\<^sup>*\<^sup>* s (snd (bulkUpload now uid bodies s))"
proof -
  have "snd (bulkUpload now uid bodies s) = snd (bulkSave now uid bodies s)"
    by (simp add: bulkUpload_def split: prod.splits bool.splits)
  with bulkSave_keeps [of now uid bodies s]
  have "prim s (snd (bulkUpload now uid bodies s))"
    by (intro prim_other) simp_all
  then show ?thesis by (rule r_into_rtranclp)
qed

lemma createListing_prims: "prim\<^sup>*\<^sup>* s (snd (createListing now uid body s))"
proof -
  have "prim s (snd (createListing now uid body s))"
    by (rule prim_other)
       (simp_all add: createListing_def split: option.splits)
  then show ?thesis by (rule r_into_rtranclp)
qed

lemma save_pending_prims:
  assumes "admissible p"
  shows "prim s (save_pending p s)"
proof (cases p)
  case (ListingSave r n)
  then show ?thesis by (simp add: prim_other)
next
  case (OfferSave r n)
  with assms have n: "o_status n \<noteq> OfferActive" by simp
  have "prim s (s\<lparr> offers := map (\<lambda>d. if o_id d = o_id r then offer_saved r n d else d) (offers s) \<rparr>)"
    by (rule prim_offers) (simp add: offer_saved_def changed_def n)
  with OfferSave show ?thesis by simp
next
  case (TransactionSave r n)
  with assms have n: "deliveryStatus n \<in> {DeliveryPending, Transferred}" by simp
  have "prim s (s\<lparr> transactions :=
          map (\<lambda>d. if t_id d = t_id r then transaction_saved r n d else d) (transactions s) \<rparr>)"
    by (rule prim_transactions) (use n in \<open>auto simp: transaction_saved_def changed_def\<close>)
  with TransactionSave show ?thesis by simp
qed

lemma step_prims:
  assumes "step c c'" "\<forall>p \<in> set (snd c). admissible p"
  shows "prim\<^sup>*\<^sup>* (fst c) (fst c') \<and> (\<forall>p \<in> set (snd c'). admissible p)"
  using assms
proof cases
  case (step_createOffer s ps w now uid body)
  with assms(2) show ?thesis by (simp add: createOffer_prims)
next
  case (step_offer_saved b s ps)
  from step_offer_saved(3)
  have "prim s (s\<lparr> offers := save_offer b (offers s), next_id := next_id s + 1 \<rparr>)"
    by (rule prim_new_offer)
  with step_offer_saved assms(2) show ?thesis by (simp add: r_into_rtranclp)
next
  case (step_createMatch s ps w now b l)
  with assms(2) show ?thesis by (simp add: createMatch_prims)
next
  case (step_acceptOffer s ps w now uid offerId abody)
  with assms(2) show ?thesis by (simp add: acceptOffer_prims)
next
  case (step_bulkUpload s ps now uid lbodies)
  with assms(2) show ?thesis by (simp add: bulkUpload_prims)
next
  case (step_createListing s ps now uid lbody)
  with assms(2) show ?thesis by (simp add: createListing_prims)
next
  case (step_confirmDelivery s ps w now uid transactionId)
  with assms(2) show ?thesis by (simp add: confirmDelivery_def)
next
  case (step_disputeTransaction s ps w now uid transactionId reason)
  with assms(2) show ?thesis by (simp add: disputeTransaction_def)
next
  case (step_processAutoSellListings s ps w now)
  with assms(2) show ?thesis by (simp add: processAutoSellListings_store)
next
  case (step_environment s ps es us)
  with assms(2) show ?thesis by (simp add: prim_other r_into_rtranclp)
next
  case (step_updateListing listingId uid s listing lbody listing' s' ps)
  with assms(2) show ?thesis by simp
next
  case (step_deleteListing listingId uid s listing s' ps)
  with assms(2) show ?thesis by simp
next
  case (step_goLive listingId uid s listing now listing' s' ps)
  with assms(2) show ?thesis by simp
next
  case (step_cancelOffer offerId uid s offer w s' ps)
  with assms(2) show ?thesis by simp
next
  case (step_transferTickets transactionId uid s t now n t' s' ps)
  from step_transferTickets(4) have "deliveryStatus t' = Transferred"
    by (auto simp: transferTickets_def Let_def split: option.splits)
  with step_transferTickets assms(2) show ?thesis by simp
next
  case (step_save p ps s)
  with assms(2) have k: "admissible p" by auto
  from step_save assms(2) have "\<forall>q \<in> set (snd c'). admissible q"
    by (auto dest: notin_set_remove1)
  with step_save save_pending_prims [OF k, of s] show ?thesis
    by (simp add: r_into_rtranclp)
qed

lemma reachable_inv:
  "reachable c \<Longrightarrow> store_inv (fst c) \<and> (\<forall>p \<in> set (snd c). admissible p)"
proof (induction rule: reachable.induct)
  case (reachable_init s)
  then show ?case by (simp add: store_inv_def)
next
  case (reachable_step c c')
  from step_prims [OF reachable_step.hyps(2)] reachable_step.IH
  have "prim\<^sup>*\<^sup>* (fst c) (fst c')" "\<forall>p \<in> set (snd c'). admissible p" by blast+
  with reachable_step.IH prims_preserve_inv show ?case by blast
qed

section \<open>No double match\<close>

lemmas store_eval = ex_market_store_def ex_listed_store_def ex_once_matched_store_def
  ex_twice_matched_store_def ex_listing_def ex_redrafted_def ex_relisted_def ex_matched_offer_def
  ex_match_def ex_offer_def ex_event_def ex_buyer_def ex_seller_def ex_offer_body_def
  ex_listing_body_def ex_later_body_def no_updates_def gateway_ok_def

lemmas offer_eval = createOffer_def calculateSuggestedPrice_def average_def sum_prices_def
  calculateAcceptanceProbability_def to_number_def validate_offer_def checkForInstantMatch_def
  bestListing_def matchingListings_def sort_by_def createMatch_def save_offer_def
  save_listing_def save_transaction_def save_doc_def Let_def

lemma listed_example:
  "createListing 0 3 ex_listing_body ex_market_store
     = (Success (ex_listing Active True), ex_listed_store)"
  by (simp add: createListing_def new_listing_def body_truthy_def validate_listing_def
        save_listing_def save_doc_def autoSell_default_def store_eval)

lemma later_example:
  "find (\<lambda>l. l_id l = 5 \<and> l_seller l = 3) (listings ex_listed_store) = Some (ex_listing Active True)"
  "updateListing 3 5 ex_later_body ex_listed_store
     = (Success ex_redrafted, ex_listed_store\<lparr> listings := [ex_redrafted] \<rparr>)"
  by (simp_all add: updateListing_def apply_updates_def body_truthy_def validate_listing_def
        save_listing_def save_doc_def Let_def store_eval)

lemma first_match_example:
  "createOffer gateway_ok 10 2 ex_offer_body ex_listed_store
     = (Success ((ex_offer (Fin 25 3))\<lparr> o_id := 6, o_createdAt := 10 \<rparr>),
        ex_once_matched_store (ex_listing Matched True))"
  by (simp add: offer_eval store_eval js_eval)

lemma stale_save_example:
  "save_pending (ListingSave (ex_listing Active True) ex_redrafted)
       (ex_once_matched_store (ex_listing Matched True))
     = ex_once_matched_store ex_redrafted"
  by (simp add: listing_saved_def changed_def store_eval)

lemma goLive_example:
  "find (\<lambda>l. l_id l = 5 \<and> l_seller l = 3 \<and> l_status l = Draft)
       (listings (ex_once_matched_store ex_redrafted)) = Some ex_redrafted"
  "goLive 20 3 5 (ex_once_matched_store ex_redrafted)
     = (Success ex_relisted, ex_once_matched_store ex_relisted)"
  by (simp_all add: goLive_def validate_listing_def save_listing_def save_doc_def Let_def
        store_eval)

lemma goLive_save_example:
  "save_pending (ListingSave ex_redrafted ex_relisted) (ex_once_matched_store ex_redrafted)
     = ex_once_matched_store ex_relisted"
  by (simp add: listing_saved_def changed_def store_eval)

lemma second_match_example:
  "createOffer gateway_ok 30 2 ex_offer_body (ex_once_matched_store ex_relisted)
     = (Success ((ex_offer (Fin 25 3))\<lparr> o_id := 8, o_suggestedPrice := Fin 95 1,
                                         acceptanceProbability := Fin 95 0, o_createdAt := 30 \<rparr>),
        ex_twice_matched_store)"
  by (simp add: offer_eval store_eval js_eval)


lemma reachable_twice_matched: "reachable (ex_twice_matched_store, [])"
proof -
  have 0: "reachable (ex_market_store, [])"
    by (rule reachable_init) (simp_all add: ex_market_store_def)
  have "step (ex_market_store, []) (ex_listed_store, [])"
    using step_createListing [of ex_market_store "[]" 0 3 ex_listing_body]
    by (simp add: listed_example)
  with 0 have 1: "reachable (ex_listed_store, [])"
    by (rule reachable_step)
  have "step (ex_listed_store, [])
             (ex_listed_store, [ListingSave (ex_listing Active True) ex_redrafted])"
    by (rule step_updateListing [OF later_example])
  with 1 have 2: "reachable (ex_listed_store, [ListingSave (ex_listing Active True) ex_redrafted])"
    by (rule reachable_step)
  have "step (ex_listed_store, [ListingSave (ex_listing Active True) ex_redrafted])
             (ex_once_matched_store (ex_listing Matched True),
              [ListingSave (ex_listing Active True) ex_redrafted])"
    using step_createOffer [of ex_listed_store _ gateway_ok 10 2 ex_offer_body]
    by (simp add: first_match_example)
  with 2 have 3: "reachable (ex_once_matched_store (ex_listing Matched True),
                             [ListingSave (ex_listing Active True) ex_redrafted])"
    by (rule reachable_step)
  have "step (ex_once_matched_store (ex_listing Matched True),
              [ListingSave (ex_listing Active True) ex_redrafted])
             (ex_once_matched_store ex_redrafted, [])"
    using step_save [of "ListingSave (ex_listing Active True) ex_redrafted"
                        "[ListingSave (ex_listing Active True) ex_redrafted]"
                        "ex_once_matched_store (ex_listing Matched True)"]
    by (simp add: stale_save_example del: save_pending.simps)
  with 3 have 4: "reachable (ex_once_matched_store ex_redrafted, [])"
    by (rule reachable_step)
  have "step (ex_once_matched_store ex_redrafted, [])
             (ex_once_matched_store ex_redrafted, [ListingSave ex_redrafted ex_relisted])"
    by (rule step_goLive [OF goLive_example])
  with 4 have 5: "reachable (ex_once_matched_store ex_redrafted,
                             [ListingSave ex_redrafted ex_relisted])"
    by (rule reachable_step)
  have "step (ex_once_matched_store ex_redrafted, [ListingSave ex_redrafted ex_relisted])
             (ex_once_matched_store ex_relisted, [])"
    using step_save [of "ListingSave ex_redrafted ex_relisted"
                        "[ListingSave ex_redrafted ex_relisted]"
                        "ex_once_matched_store ex_redrafted"]
    by (simp add: goLive_save_example del: save_pending.simps)
  with 5 have 6: "reachable (ex_once_matched_store ex_relisted, [])"
    by (rule reachable_step)
  have "step (ex_once_matched_store ex_relisted, []) (ex_twice_matched_store, [])"
    using step_createOffer [of "ex_once_matched_store ex_relisted" "[]" gateway_ok 30 2 ex_offer_body]
    by (simp add: second_match_example)
  with 6 show ?thesis
    by (rule reachable_step)
qed

text \<open>
  Claim C1 as stated fails for listings. The seller's update of listing 5 reads the
  listing while it is \<open>active\<close>; before it is saved, an offer is matched with the
  listing (Transaction 7). The save then writes the paths the update has changed,
  \<open>status\<close> among them, and the listing is a \<open>draft\<close>; the seller takes it live again,
  and a second offer is matched with it (Transaction 9). The state is reachable, and
  two Transactions reference listing 5.
\<close>

theorem stale_listing_save_allows_second_match:
  "reachable (ex_twice_matched_store, [])
   \<and> map t_id (transactions ex_twice_matched_store) = [7, 9]
   \<and> map buyerOffer (transactions ex_twice_matched_store) = [6, 8]
   \<and> map sellerListing (transactions ex_twice_matched_store) = [Some 5, Some 5]
   \<and> length (filter (\<lambda>t. sellerListing t = Some 5) (transactions ex_twice_matched_store)) = 2"
  by (simp add: reachable_twice_matched) (simp add: ex_twice_matched_store_def ex_match_def)

lemma filter_distinct_map:
  "distinct (map f xs) \<Longrightarrow> length (filter (\<lambda>x. f x = v) xs) \<le> 1"
proof (induction xs)
  case Nil then show ?case by simp
next
  case (Cons x xs)
  show ?case
  proof (cases "f x = v")
    case True
    from Cons.prems have "f x \<notin> f ` set xs" by simp
    then have "f y \<noteq> f x" if "y \<in> set xs" for y
      using that by (metis image_eqI)
    with True have "filter (\<lambda>x. f x = v) xs = []"
      by (simp add: filter_empty_conv)
    with True show ?thesis by simp
  next
    case False
    with Cons show ?thesis by simp
  qed
qed

lemma mem_save_doc: "d \<in> set (save_doc k d ds)"
  by (simp add: set_save_doc)

lemma acceptOffer_Success:
  assumes "acceptOffer w now uid offerId body s = (Success t, s')"
  shows "t \<in> set (transactions s') \<and> buyerOffer t = offerId"
proof (cases "find (\<lambda>b. o_id b = offerId) (offers s)")
  case None
  with assms show ?thesis by (simp add: acceptOffer_def)
next
  case (Some offer)
  then have i: "o_id offer = offerId" by (auto dest: find_SomeD)
  let ?t = "accepted_transaction now (next_id s + 1) uid body offer
              (accepted_listing now (next_id s) uid body offer)"
  have "t = ?t \<and> transactions s' = save_transaction ?t (transactions s)"
    using assms Some unfolding acceptOffer_def Let_def
    by (auto split: if_splits outcome.splits)
  then show ?thesis
    using i by (simp add: save_transaction_def mem_save_doc accepted_transaction_def)
qed

lemma settled_offer_is_closed:
  assumes inv: "store_inv s" and t: "t \<in> set (transactions s)"
  shows "acceptOffer w now uid (buyerOffer t) body s = (Failure 500 ''Offer not available'', s)"
    and "o_id b = buyerOffer t \<Longrightarrow> \<exists>msg. createMatch w now b l s = (Throws msg, s)"
proof -
  from inv t have act: "\<forall>x \<in> set (offers s). o_id x = buyerOffer t \<longrightarrow> o_status x \<noteq> OfferActive"
    by (simp add: store_inv_def)
  show "acceptOffer w now uid (buyerOffer t) body s = (Failure 500 ''Offer not available'', s)"
  proof (cases "find (\<lambda>x. o_id x = buyerOffer t) (offers s)")
    case None
    then show ?thesis by (simp add: acceptOffer_def)
  next
    case (Some offer)
    with act have "o_status offer \<noteq> OfferActive" by (auto dest: find_SomeD)
    with Some show ?thesis by (simp add: acceptOffer_def)
  qed
  show "\<exists>msg. createMatch w now b l s = (Throws msg, s)" if b: "o_id b = buyerOffer t"
  proof (cases "find (\<lambda>x. o_id x = o_id b) (offers s)")
    case None
    then show ?thesis by (simp add: createMatch_def)
  next
    case (Some offer)
    with act b have "o_status offer \<noteq> OfferActive" by (auto dest: find_SomeD)
    with Some show ?thesis by (simp add: createMatch_def split: option.splits)
  qed
qed

text \<open>
  Claim C1, as the code has it, for offers. In every state the system can reach, with
  any requests in flight, an offer is referenced by at most one Transaction. An offer
  that a Transaction references cannot be settled again: \<open>acceptOffer\<close> on it answers
  with an error and \<open>createMatch\<close> on it throws, and both leave the store as it is,
  because the offer they read again is not \<open>active\<close>. And when \<open>acceptOffer\<close> succeeds,
  the state it leaves is such a state, in which the Transaction it returns references
  the offer; so of the attempts on one offer at most one creates a Transaction.
\<close>

theorem no_offer_is_settled_twice:
  assumes "reachable (s, ps)"
  shows "length (filter (\<lambda>t. buyerOffer t = offerId) (transactions s)) \<le> 1
       \<and> (\<forall>t \<in> set (transactions s).
            acceptOffer w now uid (buyerOffer t) body s = (Failure 500 ''Offer not available'', s)
            \<and> (\<forall>b l. o_id b = buyerOffer t \<longrightarrow> (\<exists>msg. createMatch w now b l s = (Throws msg, s))))
       \<and> (acceptOffer w now uid offerId body s = (Success t', s') \<longrightarrow>
            reachable (s', ps) \<and> t' \<in> set (transactions s') \<and> buyerOffer t' = offerId)"
proof -
  from reachable_inv [OF assms] have inv: "store_inv s" by simp
  then have "distinct (map buyerOffer (transactions s))"
    by (simp add: store_inv_def)
  then have 1: "length (filter (\<lambda>t. buyerOffer t = offerId) (transactions s)) \<le> 1"
    by (rule filter_distinct_map)
  have 2: "\<forall>t \<in> set (transactions s).
            acceptOffer w now uid (buyerOffer t) body s = (Failure 500 ''Offer not available'', s)
            \<and> (\<forall>b l. o_id b = buyerOffer t \<longrightarrow> (\<exists>msg. createMatch w now b l s = (Throws msg, s)))"
    using settled_offer_is_closed [OF inv] by blast
  have 3: "reachable (s', ps) \<and> t' \<in> set (transactions s') \<and> buyerOffer t' = offerId"
    if a: "acceptOffer w now uid offerId body s = (Success t', s')"
  proof -
    have "step (s, ps) (snd (acceptOffer w now uid offerId body s), ps)"
      by (rule step_acceptOffer)
    with a have "step (s, ps) (s', ps)" by simp
    with assms have "reachable (s', ps)" by (rule reachable_step)
    with acceptOffer_Success [OF a] show ?thesis by simp
  qed
  from 1 2 3 show ?thesis by blast
qed

lemma create_example:
  "createOffer gateway_ok 0 2 ex_offer_body ex_initial_store
     = (Success (ex_offer (Fin 25 3)), ex_offer_store (Fin 25 3))"
  by (simp add: createOffer_def ex_offer_body_def ex_initial_store_def ex_event_def
        calculateSuggestedPrice_def average_def sum_prices_def calculateAcceptanceProbability_def
        to_number_def gateway_ok_def validate_offer_def checkForInstantMatch_def bestListing_def
        matchingListings_def sort_by_def save_offer_def save_doc_def ex_offer_def
        ex_offer_store_def Let_def js_eval)

lemma reachable_offer_store: "reachable (ex_offer_store (Fin 25 3), [])"
proof -
  have "reachable (ex_initial_store, [])"
    by (rule reachable_init) (simp_all add: ex_initial_store_def)
  moreover have "step (ex_initial_store, []) (ex_offer_store (Fin 25 3), [])"
    using step_createOffer [of ex_initial_store "[]" gateway_ok 0 2 ex_offer_body]
    by (simp add: create_example)
  ultimately show ?thesis by (rule reachable_step)
qed

theorem no_offer_is_settled_twice_witness:
  "reachable (ex_offer_store (Fin 25 3), [])
   \<and> acceptOffer gateway_ok 50 3 10 ex_accept (ex_offer_store (Fin 25 3))
       = (Success (ex_settled 50 (Fin 25 3)), ex_settled_store 50 (Fin 25 3))
   \<and> reachable (ex_settled_store 50 (Fin 25 3), [])
   \<and> ex_settled 50 (Fin 25 3) \<in> set (transactions (ex_settled_store 50 (Fin 25 3)))
   \<and> buyerOffer (ex_settled 50 (Fin 25 3)) = 10
   \<and> length (filter (\<lambda>t. buyerOffer t = 10) (transactions (ex_settled_store 50 (Fin 25 3)))) \<le> 1
   \<and> acceptOffer gateway_ok 60 3 10 ex_accept (ex_settled_store 50 (Fin 25 3))
       = (Failure 500 ''Offer not available'', ex_settled_store 50 (Fin 25 3))
   \<and> (\<exists>msg. createMatch gateway_ok 60 (ex_offer (Fin 25 3)) (ex_listing Active True)
               (ex_settled_store 50 (Fin 25 3))
             = (Throws msg, ex_settled_store 50 (Fin 25 3)))
   \<and> reachable (ex_twice_matched_store, [])
   \<and> length (filter (\<lambda>t. buyerOffer t = 6) (transactions ex_twice_matched_store)) \<le> 1
   \<and> length (filter (\<lambda>t. buyerOffer t = 8) (transactions ex_twice_matched_store)) \<le> 1"
proof -
  note a = accept_example [OF nonnegative_examples(1), of 50]
  note first = no_offer_is_settled_twice
                 [OF reachable_offer_store, of 10 gateway_ok 50 3 ex_accept
                    "ex_settled 50 (Fin 25 3)" "ex_settled_store 50 (Fin 25 3)"]
  from first a have r: "reachable (ex_settled_store 50 (Fin 25 3), [])"
    and m: "ex_settled 50 (Fin 25 3) \<in> set (transactions (ex_settled_store 50 (Fin 25 3)))"
    and i: "buyerOffer (ex_settled 50 (Fin 25 3)) = 10"
    by blast+
  note second = no_offer_is_settled_twice [OF r, of 10 gateway_ok 60 3 ex_accept]
  from second
  have l: "length (filter (\<lambda>t. buyerOffer t = 10) (transactions (ex_settled_store 50 (Fin 25 3)))) \<le> 1"
    by blast
  from second m i
  have again: "acceptOffer gateway_ok 60 3 10 ex_accept (ex_settled_store 50 (Fin 25 3))
       = (Failure 500 ''Offer not available'', ex_settled_store 50 (Fin 25 3))"
    by fastforce
  have "o_id (ex_offer (Fin 25 3)) = buyerOffer (ex_settled 50 (Fin 25 3))"
    by (simp add: i ex_offer_def)
  with second m
  have cm: "\<exists>msg. createMatch gateway_ok 60 (ex_offer (Fin 25 3)) (ex_listing Active True)
               (ex_settled_store 50 (Fin 25 3))
             = (Throws msg, ex_settled_store 50 (Fin 25 3))"
    by blast
  note third = no_offer_is_settled_twice [OF reachable_twice_matched]
  from third [of 6] third [of 8]
  have t: "length (filter (\<lambda>t. buyerOffer t = 6) (transactions ex_twice_matched_store)) \<le> 1"
    "length (filter (\<lambda>t. buyerOffer t = 8) (transactions ex_twice_matched_store)) \<le> 1"
    by blast+
  from reachable_offer_store a r m i l again cm reachable_twice_matched t
  show ?thesis by (intro conjI)
qed

section \<open>Delivery, escrow and payout\<close>

lemma delivery_handlers_write_nothing:
  "confirmDelivery w now uid transactionId s = (Failure 500 ''Failed to confirm delivery'', s)"
  "snd (disputeTransaction w now uid transactionId reason s) = s"
  by (simp_all add: confirmDelivery_def disputeTransaction_def)

lemma no_escrow_is_released:
  assumes "reachable (s, ps)" "t \<in> set (transactions s)"
  shows "escrowStatus t = Held \<and> deliveryStatus t \<noteq> Confirmed \<and> deliveryStatus t \<noteq> Disputed"
proof -
  from reachable_inv [OF assms(1)] have "store_inv s" by simp
  with assms(2) have "escrowStatus t = Held \<and> deliveryStatus t \<in> {DeliveryPending, Transferred}"
    by (simp add: store_inv_def)
  then show ?thesis by auto
qed








end
